theory Spec2Isabelle
  imports Complex_Main
begin

section \<open>The download queue orchestrator\<close>

text \<open>
  A shallow embedding of the class \<^verbatim>\<open>QueueService\<close>, of the parts of
  \<^verbatim>\<open>YoutubeService\<close> (youtube.service.js) it drives (download, pause, resume, cancel and
  the handlers of the worker's stdout, stderr, close and error events), of the queries of
  \<^verbatim>\<open>HistoryService\<close> (history.service.js) it calls, and of
  \<^verbatim>\<open>SettingsService.getCached\<close>. The operations on all jobs at once (\<^verbatim>\<open>pauseAll\<close>,
  \<^verbatim>\<open>resumeAll\<close>, \<^verbatim>\<open>cancelAll\<close>, \<^verbatim>\<open>retryAll\<close>, \<^verbatim>\<open>clearCompleted\<close>) are not part of it.

  JavaScript runs one handler at a time, to completion or to its next \<^verbatim>\<open>await\<close>.
  An \<^verbatim>\<open>async\<close> function is therefore modelled as its synchronous prefix, a state
  transformer, which leaves the rest of the function in the state as a suspended task;
  a later step resumes the task. A write to the history that a function awaits takes
  effect, and is recorded in the trace, when the function resumes. The item objects of
  the registry are shared by reference between the registry and the suspended
  functions, so they live in a store of objects and the registry maps an id to a
  reference.
\<close>

subsection \<open>Values\<close>

type_synonym jobid = nat
type_synonym ref = nat
type_synonym pid = nat

text \<open>Every status string the two services assign.\<close>

datatype status = Pending | Downloading | Paused | Completed | Error | Cancelled | Converting

text \<open>The errors the queue service throws, one constructor for each message.\<close>

datatype err =
    ItemNotFound
  | NotDownloading
  | NotPaused
  | CancelBeforeRemove
  | NotInHistory
  | NotRetryable
  | AddFailed string

text \<open>
  JavaScript's \<^verbatim>\<open>a || b\<close> on optional strings: \<^verbatim>\<open>undefined\<close>, \<^verbatim>\<open>null\<close> and the
  empty string are falsy.
\<close>

fun falsy :: "string option \<Rightarrow> bool" where
  "falsy None = True"
| "falsy (Some s) = (s = [])"

definition jsOr :: "string option \<Rightarrow> string option \<Rightarrow> string option" where
  "jsOr a b = (if falsy a then b else a)"

definition orString :: "string option \<Rightarrow> string \<Rightarrow> string" where
  "orString a d = (case a of None \<Rightarrow> d | Some s \<Rightarrow> if s = [] then d else s)"

text \<open>\<^verbatim>\<open>String.prototype.includes\<close>.\<close>

fun strIncludes :: "string \<Rightarrow> string \<Rightarrow> bool" where
  "strIncludes [] pat = (pat = [])"
| "strIncludes (c # cs) pat =
     (if take (length pat) (c # cs) = pat then True else strIncludes cs pat)"

subsection \<open>Progress extraction from the worker's output\<close>

text \<open>
  \<^verbatim>\<open>output.match(/(\d+\.?\d*)%/)\<close>: the leftmost match of one or more digits, an
  optional dot, further digits, and a percent sign; the group is the text before the
  percent sign. At a given start the digits are taken greedily, and no shorter choice
  can reach a percent sign when the greedy one does not, so one attempt for each start
  decides the match.
\<close>

definition isDigit :: "char \<Rightarrow> bool" where
  "isDigit c = (48 \<le> (of_char c :: nat) \<and> (of_char c :: nat) \<le> 57)"

definition matchAt :: "string \<Rightarrow> string option" where
  "matchAt s =
     (let d1 = takeWhile isDigit s; r1 = dropWhile isDigit s in
      if d1 = [] then None
      else (case r1 of
              [] \<Rightarrow> None
            | c # r2 \<Rightarrow>
                if c = CHR ''%'' then Some d1
                else if c = CHR ''.'' then
                  (let d2 = takeWhile isDigit r2; r3 = dropWhile isDigit r2 in
                   case r3 of
                     [] \<Rightarrow> None
                   | c' # _ \<Rightarrow> if c' = CHR ''%'' then Some (d1 @ CHR ''.'' # d2) else None)
                else None))"

fun progressMatch :: "string \<Rightarrow> string option" where
  "progressMatch [] = None"
| "progressMatch (c # cs) =
     (case matchAt (c # cs) of Some g \<Rightarrow> Some g | None \<Rightarrow> progressMatch cs)"

text \<open>
  The decimal number that a matched text (digits, dot, digits) writes. \<^verbatim>\<open>parseFloat\<close>
  itself belongs to the engine and gives the double nearest to that number; the model
  takes it from the environment (see \<open>env\<close> below), so that nothing is assumed of its
  rounding. It agrees with the decimal reading on every text whose number is a
  double, as 50.0, 10.5 or 100 are.
\<close>

definition digitVal :: "char \<Rightarrow> nat" where
  "digitVal c = of_char c - 48"

definition digitsVal :: "string \<Rightarrow> nat" where
  "digitsVal ds = foldl (\<lambda>a c. 10 * a + digitVal c) 0 ds"

definition decimalValue :: "string \<Rightarrow> rat" where
  "decimalValue g =
     (let ip = takeWhile isDigit g; fp = drop 1 (dropWhile isDigit g) in
      of_nat (digitsVal ip) + of_nat (digitsVal fp) / of_nat (10 ^ length fp))"

subsection \<open>The registry, the services and the suspended functions\<close>

text \<open>
  An item of the queue, as \<^verbatim>\<open>add\<close> and \<^verbatim>\<open>retry\<close> build it and the handlers extend
  it. Times are milliseconds of one clock; \<^verbatim>\<open>uuidv4()\<close> is a counter, the n-th call
  returning n, which keeps the one property of a UUID the code relies on: a new id
  differs from every earlier one.
\<close>

record item =
  iid :: jobid
  url :: string
  title :: string
  status :: status
  progress :: rat
  createdAt :: nat
  itype :: string
  playlistId :: "jobid option"
  playlistName :: "string option"
  thumbnail :: "string option"
  duration :: "nat option"
  channel :: "string option"
  error :: "string option"
  filePath :: "string option"
  finishedAt :: "nat option"
  startTime :: "nat option"

text \<open>
  A row of the \<^verbatim>\<open>downloads\<close> table, with the columns the queue service reads or
  decides on. The progress column and the statistics columns are left out: the queue
  service writes them (\<^verbatim>\<open>updateProgress\<close>, not awaited, and \<^verbatim>\<open>updateStats\<close>) and never
  reads them.
\<close>

record hrow =
  h_id :: jobid
  h_url :: string
  h_title :: string
  h_status :: status
  h_createdAt :: nat
  h_finishedAt :: "nat option"
  h_filePath :: "string option"
  h_error :: "string option"
  h_type :: string
  h_playlistId :: "jobid option"
  h_channel :: "string option"

text \<open>One line of yt-dlp's JSON, and the result of \<^verbatim>\<open>getVideoDetails\<close>.\<close>

record videoInfo =
  v_id :: string
  v_url :: "string option"
  v_webpage_url :: "string option"
  v_title :: "string option"
  v_uploader :: "string option"
  v_channel :: "string option"
  v_thumbnail :: "string option"
  v_duration :: "nat option"

record details =
  d_title :: string
  d_thumbnail :: "string option"
  d_duration :: "nat option"
  d_uploader :: "string option"

text \<open>
  The events the queue service emits, with their payload (the \<^verbatim>\<open>complete\<close> event also
  carries the file size; the speed, a quotient of doubles, is left out of the payload).
  The trace records them in order, together with every completed
  \<^verbatim>\<open>historyService.updateStatus\<close>.
\<close>

datatype event =
    Added "item list"
  | StatusChange item
  | Progress item
  | Complete item nat
  | ErrorEv item
  | Removed jobid

datatype obs = Emit event | Wrote jobid status

text \<open>
  An entry of \<^verbatim>\<open>YoutubeService.activeProcesses\<close>, and a spawned worker with the
  variables its handlers close over.
\<close>

record handle =
  process :: pid
  paused :: bool

datatype signal = SIGSTOP | SIGCONT | SIGTERM

record proc =
  downloadId :: jobid
  lastProgress :: rat
  outputFile :: "string option"
  signals :: "signal list"
  closed :: bool
  settled :: bool

text \<open>An entry of \<^verbatim>\<open>skippedItems\<close>, and what a call of \<^verbatim>\<open>add\<close> returns or throws.\<close>

datatype reason = InQueue | AlreadyDownloaded

record skipped =
  sk_url :: string
  sk_title :: string
  sk_reason :: reason
  sk_existingId :: jobid
  sk_downloadedAt :: "nat option"

type_synonym addResult = "err + ref list \<times> skipped list"

text \<open>
  The local variables of a call of \<^verbatim>\<open>add\<close> that is under way: its arguments, the
  playlist id, and the two arrays it fills (\<^verbatim>\<open>items\<close> holds the objects it has set into
  the queue).
\<close>

record addCtx =
  a_url :: string
  a_type :: string
  a_force :: bool
  a_playlistId :: "jobid option"
  a_items :: "ref list"
  a_skipped :: "skipped list"

text \<open>
  A suspended \<^verbatim>\<open>async\<close> function: where it waits and what it holds. Consecutive awaits
  with no statement between them that the model keeps are one suspension
  (\<^verbatim>\<open>updateTitle\<close> and \<^verbatim>\<open>updateChannel\<close> in \<^verbatim>\<open>startDownload\<close>). The last four are
  the awaits of \<^verbatim>\<open>add\<close>: on \<^verbatim>\<open>getInfo\<close>, on \<^verbatim>\<open>existsInQueue\<close> and
  \<^verbatim>\<open>wasDownloadedSuccessfully\<close> for a video with the videos still to come, and on
  \<^verbatim>\<open>historyService.add\<close> for a created item.
\<close>

datatype task =
    ProcessNextK "nat option"
  | StartDownloadK jobid ref
  | DetailsK jobid ref
  | DetailsSavedK jobid ref details
  | DownloadK jobid "nat option"
  | CatchK jobid string
  | HandleCompleteK jobid ref "string option"
  | StatsK jobid ref nat
  | HandleErrorK jobid ref string
  | PauseK jobid ref
  | ResumeK jobid ref
  | CancelK jobid
  | CancelledK jobid ref
  | RetryK1 jobid
  | RetryK2 jobid hrow
  | AddInfoK string string bool
  | AddInQueueK addCtx videoInfo "videoInfo list"
  | AddDownloadedK addCtx videoInfo "videoInfo list"
  | AddSavedK addCtx item "videoInfo list"

record state =
  queue :: "(jobid \<times> ref) list"
  objs :: "item list"
  activeDownloads :: int
  activeProcesses :: "(jobid \<times> handle) list"
  procs :: "proc list"
  history :: "hrow list"
  tasks :: "task list"
  trace :: "obs list"
  nextUuid :: nat
  clock :: nat
  cachedSettings :: "nat option"
  settingsTable :: nat
  replies :: "(string \<times> addResult) list"

text \<open>
  The last field records, for each call of \<^verbatim>\<open>add\<close> that ran through its awaits and
  has ended, the URL it was called with and what it returned or threw.

  What the orchestrator reads from outside: yt-dlp's answers, the size of a file
  (0 when it does not exist or cannot be read), the newest file of the download
  directory with the configured extension, the output path that the two
  destination patterns of the stdout handler find in a chunk, the engine's
  \<^verbatim>\<open>parseFloat\<close> (a finite double is a rational; a text so long that it reads as
  Infinity is left out), and whether the insertion of the history row of a URL fails.
\<close>

record env =
  getInfo :: "string \<Rightarrow> string + videoInfo list"
  getVideoDetails :: "string \<Rightarrow> string + details"
  fileSize :: "string \<Rightarrow> nat"
  recentFile :: "string option"
  destinationOf :: "string \<Rightarrow> string option"
  parseFloat :: "string \<Rightarrow> rat"
  insertFails :: "string \<Rightarrow> string option"

subsection \<open>A JavaScript Map\<close>

text \<open>
  A \<^verbatim>\<open>Map\<close> iterates in insertion order; \<^verbatim>\<open>set\<close> on a key that is present replaces
  the value where the key stands, and appends otherwise.
\<close>

definition mapGet :: "('k \<times> 'v) list \<Rightarrow> 'k \<Rightarrow> 'v option" where
  "mapGet m k = map_of m k"

fun mapSet :: "'k \<Rightarrow> 'v \<Rightarrow> ('k \<times> 'v) list \<Rightarrow> ('k \<times> 'v) list" where
  "mapSet k v [] = [(k, v)]"
| "mapSet k v (p # ps) = (if fst p = k then (k, v) # ps else p # mapSet k v ps)"

definition mapDelete :: "'k \<Rightarrow> ('k \<times> 'v) list \<Rightarrow> ('k \<times> 'v) list" where
  "mapDelete k m = filter (\<lambda>p. fst p \<noteq> k) m"

subsection \<open>State helpers\<close>

definition deref :: "state \<Rightarrow> ref \<Rightarrow> item" where
  "deref s r = objs s ! r"

definition modify :: "ref \<Rightarrow> (item \<Rightarrow> item) \<Rightarrow> state \<Rightarrow> state" where
  "modify r f s = s\<lparr>objs := (objs s)[r := f (objs s ! r)]\<rparr>"

definition emit :: "event \<Rightarrow> state \<Rightarrow> state" where
  "emit e s = s\<lparr>trace := trace s @ [Emit e]\<rparr>"

definition await :: "task \<Rightarrow> state \<Rightarrow> state" where
  "await t s = s\<lparr>tasks := tasks s @ [t]\<rparr>"

definition items :: "state \<Rightarrow> item list" where
  "items s = map (\<lambda>p. deref s (snd p)) (queue s)"

subsection \<open>HistoryService\<close>

definition isTerminal :: "status \<Rightarrow> bool" where
  "isTerminal st = (st = Completed \<or> st = Error \<or> st = Cancelled)"

definition isActive :: "status \<Rightarrow> bool" where
  "isActive st = (st = Pending \<or> st = Downloading \<or> st = Paused)"

text \<open>
  \<^verbatim>\<open>historyService.add\<close>: the row starts as pending, with the table's default
  \<^verbatim>\<open>created_at\<close>.
\<close>

definition historyAdd ::
  "jobid \<Rightarrow> string \<Rightarrow> string \<Rightarrow> string \<Rightarrow> jobid option \<Rightarrow> string option \<Rightarrow> state \<Rightarrow> state" where
  "historyAdd i u t ty pl ch s =
     s\<lparr>history := history s @
        [\<lparr>h_id = i, h_url = u, h_title = t, h_status = Pending, h_createdAt = clock s,
          h_finishedAt = None, h_filePath = None, h_error = None, h_type = ty,
          h_playlistId = pl, h_channel = ch\<rparr>]\<rparr>"

text \<open>
  \<^verbatim>\<open>historyService.updateStatus\<close>, at the moment the write completes: the file path and
  the error message are set when truthy, \<^verbatim>\<open>finished_at\<close> on a terminal status.
\<close>

definition updateRow :: "status \<Rightarrow> string option \<Rightarrow> string option \<Rightarrow> nat \<Rightarrow> hrow \<Rightarrow> hrow" where
  "updateRow st fp em now r =
     r\<lparr>h_status := st,
       h_filePath := (if falsy fp then h_filePath r else fp),
       h_error := (if falsy em then h_error r else em),
       h_finishedAt := (if isTerminal st then Some now else h_finishedAt r)\<rparr>"

definition updateStatus :: "jobid \<Rightarrow> status \<Rightarrow> string option \<Rightarrow> string option \<Rightarrow> state \<Rightarrow> state" where
  "updateStatus i st fp em s =
     s\<lparr>history := map (\<lambda>r. if h_id r = i then updateRow st fp em (clock s) r else r) (history s),
       trace := trace s @ [Wrote i st]\<rparr>"

definition updateTitle :: "jobid \<Rightarrow> string \<Rightarrow> state \<Rightarrow> state" where
  "updateTitle i t s =
     s\<lparr>history := map (\<lambda>r. if h_id r = i then r\<lparr>h_title := t\<rparr> else r) (history s)\<rparr>"

definition updateChannel :: "jobid \<Rightarrow> string option \<Rightarrow> state \<Rightarrow> state" where
  "updateChannel i c s =
     s\<lparr>history := map (\<lambda>r. if h_id r = i then r\<lparr>h_channel := c\<rparr> else r) (history s)\<rparr>"

definition getById :: "hrow list \<Rightarrow> jobid \<Rightarrow> hrow option" where
  "getById h i = find (\<lambda>r. h_id r = i) h"

text \<open>
  \<^verbatim>\<open>ORDER BY key DESC LIMIT 1\<close>: a row with the greatest key; among rows with equal
  keys, which SQL leaves open, the one that stands first in the table. PostgreSQL puts
  a NULL key first in a descending order.
\<close>

fun newest :: "(hrow \<Rightarrow> hrow \<Rightarrow> bool) \<Rightarrow> hrow list \<Rightarrow> hrow option" where
  "newest lt [] = None"
| "newest lt (r # rs) =
     (case newest lt rs of
        None \<Rightarrow> Some r
      | Some r' \<Rightarrow> if lt r r' then Some r' else Some r)"

definition createdBefore :: "hrow \<Rightarrow> hrow \<Rightarrow> bool" where
  "createdBefore a b = (h_createdAt a < h_createdAt b)"

definition finishedBefore :: "hrow \<Rightarrow> hrow \<Rightarrow> bool" where
  "finishedBefore a b =
     (case h_finishedAt a of
        None \<Rightarrow> False
      | Some x \<Rightarrow> (case h_finishedAt b of None \<Rightarrow> True | Some y \<Rightarrow> x < y))"

definition existsInQueue :: "hrow list \<Rightarrow> string \<Rightarrow> hrow option" where
  "existsInQueue h u = newest createdBefore (filter (\<lambda>r. h_url r = u \<and> isActive (h_status r)) h)"

definition wasDownloadedSuccessfully :: "hrow list \<Rightarrow> string \<Rightarrow> hrow option" where
  "wasDownloadedSuccessfully h u =
     newest finishedBefore (filter (\<lambda>r. h_url r = u \<and> h_status r = Completed) h)"

subsection \<open>SettingsService and the admission of the next job\<close>

definition DEFAULT_MAX_CONCURRENT :: nat where
  "DEFAULT_MAX_CONCURRENT = 2"

text \<open>
  \<^verbatim>\<open>processNext\<close> up to its await: \<^verbatim>\<open>getCached()\<close> answers from the cache when it is
  filled, and from the settings table otherwise; the suspended function holds the
  cached value, or nothing when the table has to be read.
\<close>

definition processNext :: "state \<Rightarrow> state" where
  "processNext s = await (ProcessNextK (cachedSettings s)) s"

definition decrement :: "state \<Rightarrow> state" where
  "decrement s = s\<lparr>activeDownloads := activeDownloads s - 1\<rparr>"

text \<open>\<^verbatim>\<open>startDownload\<close> up to its first await.\<close>

definition startDownload :: "jobid \<Rightarrow> state \<Rightarrow> state" where
  "startDownload i s =
     (case mapGet (queue s) i of
        None \<Rightarrow> s
      | Some r \<Rightarrow>
          await (StartDownloadK i r)
            (modify r (\<lambda>it. it\<lparr>status := Downloading, progress := 0\<rparr>)
               (s\<lparr>activeDownloads := activeDownloads s + 1\<rparr>)))"

text \<open>The first pending item in the iteration order of the Map.\<close>

definition firstPending :: "state \<Rightarrow> (jobid \<times> ref) option" where
  "firstPending s = find (\<lambda>p. status (deref s (snd p)) = Pending) (queue s)"

text \<open>
  \<^verbatim>\<open>settings.maxConcurrent || DEFAULT_MAX_CONCURRENT\<close>. The stored setting is taken to
  be a number, as the defaults and the settings page give it. (\<^verbatim>\<open>validateSettings\<close>
  also lets a string pass whose prefix \<^verbatim>\<open>parseInt\<close> reads as 1 to 5; it is stored as a
  string, and the comparison of \<^verbatim>\<open>processNext\<close> with a string that is not a number
  is false whatever \<^verbatim>\<open>activeDownloads\<close> is. That case is not modelled.)
\<close>

definition maxConcurrentOf :: "nat \<Rightarrow> nat" where
  "maxConcurrentOf m = (if m = 0 then DEFAULT_MAX_CONCURRENT else m)"

text \<open>\<^verbatim>\<open>processNext\<close> after its await; a read of the table fills the cache.\<close>

definition processNextK :: "nat option \<Rightarrow> state \<Rightarrow> state" where
  "processNextK c s =
     (let m = (case c of None \<Rightarrow> settingsTable s | Some v \<Rightarrow> v);
          s1 = (case c of None \<Rightarrow> s\<lparr>cachedSettings := Some (settingsTable s)\<rparr> | Some v \<Rightarrow> s)
      in if activeDownloads s1 \<ge> int (maxConcurrentOf m) then s1
         else (case firstPending s1 of
                 None \<Rightarrow> s1
               | Some p \<Rightarrow> startDownload (fst p) s1))"

subsection \<open>The handlers of the queue service\<close>

text \<open>The listeners the constructor registers on the youtube service.\<close>

definition onProgress :: "jobid \<Rightarrow> rat \<Rightarrow> status \<Rightarrow> state \<Rightarrow> state" where
  "onProgress i p st s =
     (case mapGet (queue s) i of
        None \<Rightarrow> s
      | Some r \<Rightarrow>
          (let s1 = modify r (\<lambda>it. it\<lparr>progress := p, status := st\<rparr>) s
           in emit (Progress (deref s1 r)) s1))"

definition onPaused :: "jobid \<Rightarrow> state \<Rightarrow> state" where
  "onPaused i s =
     (case mapGet (queue s) i of
        None \<Rightarrow> s
      | Some r \<Rightarrow>
          (let s1 = modify r (\<lambda>it. it\<lparr>status := Paused\<rparr>) s
           in emit (StatusChange (deref s1 r)) s1))"

definition onResumed :: "jobid \<Rightarrow> state \<Rightarrow> state" where
  "onResumed i s =
     (case mapGet (queue s) i of
        None \<Rightarrow> s
      | Some r \<Rightarrow>
          (let s1 = modify r (\<lambda>it. it\<lparr>status := Downloading\<rparr>) s
           in emit (StatusChange (deref s1 r)) s1))"

definition onCancelled :: "jobid \<Rightarrow> state \<Rightarrow> state" where
  "onCancelled i s =
     (case mapGet (queue s) i of
        None \<Rightarrow> s
      | Some r \<Rightarrow> await (CancelledK i r) (modify r (\<lambda>it. it\<lparr>status := Cancelled\<rparr>) s))"

definition cancelledK :: "jobid \<Rightarrow> ref \<Rightarrow> state \<Rightarrow> state" where
  "cancelledK i r s =
     (let s1 = updateStatus i Cancelled None None s;
          s2 = emit (StatusChange (deref s1 r)) s1
      in processNext (decrement s2))"

text \<open>\<^verbatim>\<open>handleComplete\<close>: up to its first await, and its two continuations.\<close>

definition handleComplete :: "jobid \<Rightarrow> string option \<Rightarrow> state \<Rightarrow> state" where
  "handleComplete i file s =
     (case mapGet (queue s) i of
        None \<Rightarrow> processNext (decrement s)
      | Some r \<Rightarrow>
          await (HandleCompleteK i r file)
            (modify r (\<lambda>it. it\<lparr>status := Completed, progress := 100, filePath := file,
                                finishedAt := Some (clock s)\<rparr>) s))"

definition finishComplete :: "ref \<Rightarrow> nat \<Rightarrow> state \<Rightarrow> state" where
  "finishComplete r sz s = processNext (decrement (emit (Complete (deref s r) sz) s))"

definition handleCompleteK :: "env \<Rightarrow> jobid \<Rightarrow> ref \<Rightarrow> string option \<Rightarrow> state \<Rightarrow> state" where
  "handleCompleteK e i r file s =
     (let s1 = updateStatus i Completed file None s;
          sz = (case file of None \<Rightarrow> 0 | Some f \<Rightarrow> if f = [] then 0 else fileSize e f)
      in if sz > 0 then await (StatsK i r sz) s1 else finishComplete r 0 s1)"

text \<open>\<^verbatim>\<open>handleError\<close>: up to its await, and its continuation.\<close>

definition handleError :: "jobid \<Rightarrow> string \<Rightarrow> state \<Rightarrow> state" where
  "handleError i msg s =
     (case mapGet (queue s) i of
        None \<Rightarrow> processNext (decrement s)
      | Some r \<Rightarrow>
          await (HandleErrorK i r msg)
            (modify r (\<lambda>it. it\<lparr>status := Error, error := Some msg\<rparr>) s))"

definition handleErrorK :: "jobid \<Rightarrow> ref \<Rightarrow> string \<Rightarrow> state \<Rightarrow> state" where
  "handleErrorK i r msg s =
     (let s1 = updateStatus i Error None (Some msg) s;
          s2 = emit (ErrorEv (deref s1 r)) s1
      in processNext (decrement s2))"

text \<open>
  \<^verbatim>\<open>startDownload\<close> after each of its awaits. The last one is on \<^verbatim>\<open>download\<close>, which
  runs up to its own await on \<^verbatim>\<open>getCached\<close>.
\<close>

definition beginDownload :: "jobid \<Rightarrow> ref \<Rightarrow> state \<Rightarrow> state" where
  "beginDownload i r s =
     await (DownloadK i (cachedSettings s)) (modify r (\<lambda>it. it\<lparr>startTime := Some (clock s)\<rparr>) s)"

definition startDownloadK :: "jobid \<Rightarrow> ref \<Rightarrow> state \<Rightarrow> state" where
  "startDownloadK i r s =
     (let s1 = updateStatus i Downloading None None s;
          s2 = emit (StatusChange (deref s1 r)) s1
      in if title (deref s2 r) = ''Carregando...'' \<or> falsy (channel (deref s2 r))
         then await (DetailsK i r) s2
         else beginDownload i r s2)"

definition detailsK :: "env \<Rightarrow> jobid \<Rightarrow> ref \<Rightarrow> state \<Rightarrow> state" where
  "detailsK e i r s =
     (case getVideoDetails e (url (deref s r)) of
        Inl msg \<Rightarrow> beginDownload i r s
      | Inr d \<Rightarrow>
          await (DetailsSavedK i r d)
            (modify r (\<lambda>it. it\<lparr>title := d_title d, thumbnail := d_thumbnail d,
                                duration := d_duration d,
                                channel := jsOr (d_uploader d) (channel it)\<rparr>) s))"

definition detailsSavedK :: "jobid \<Rightarrow> ref \<Rightarrow> details \<Rightarrow> state \<Rightarrow> state" where
  "detailsSavedK i r d s =
     (let s1 = updateTitle i (d_title d) s;
          s2 = (if falsy (d_uploader d) then s1 else updateChannel i (d_uploader d) s1);
          s3 = emit (StatusChange (deref s2 r)) s2
      in beginDownload i r s3)"

subsection \<open>YoutubeService\<close>

text \<open>
  \<^verbatim>\<open>download\<close> after its await on the settings (a read of the table fills the cache):
  the worker is spawned and its handle registered under the download id. The command
  line of the worker is not modelled.
\<close>

definition downloadK :: "jobid \<Rightarrow> nat option \<Rightarrow> state \<Rightarrow> state" where
  "downloadK i c s =
     s\<lparr>procs := procs s @
          [\<lparr>downloadId = i, lastProgress = 0, outputFile = None, signals = [],
            closed = False, settled = False\<rparr>],
       activeProcesses := mapSet i \<lparr>process = length (procs s), paused = False\<rparr> (activeProcesses s),
       cachedSettings := (case c of None \<Rightarrow> Some (settingsTable s) | Some v \<Rightarrow> cachedSettings s)\<rparr>"

definition setProc :: "pid \<Rightarrow> (proc \<Rightarrow> proc) \<Rightarrow> state \<Rightarrow> state" where
  "setProc n f s = s\<lparr>procs := (procs s)[n := f (procs s ! n)]\<rparr>"

definition kill :: "pid \<Rightarrow> signal \<Rightarrow> state \<Rightarrow> state" where
  "kill n sg s = setProc n (\<lambda>p. p\<lparr>signals := signals p @ [sg]\<rparr>) s"

definition setPaused :: "jobid \<Rightarrow> bool \<Rightarrow> state \<Rightarrow> state" where
  "setPaused i b s =
     s\<lparr>activeProcesses := map (\<lambda>p. if fst p = i then (fst p, (snd p)\<lparr>paused := b\<rparr>) else p)
                               (activeProcesses s)\<rparr>"

definition ytPause :: "jobid \<Rightarrow> state \<Rightarrow> bool \<times> state" where
  "ytPause i s =
     (case mapGet (activeProcesses s) i of
        None \<Rightarrow> (False, s)
      | Some h \<Rightarrow>
          if paused h then (False, s)
          else (True, onPaused i (setPaused i True (kill (process h) SIGSTOP s))))"

definition ytResume :: "jobid \<Rightarrow> state \<Rightarrow> bool \<times> state" where
  "ytResume i s =
     (case mapGet (activeProcesses s) i of
        None \<Rightarrow> (False, s)
      | Some h \<Rightarrow>
          if paused h then (True, onResumed i (setPaused i False (kill (process h) SIGCONT s)))
          else (False, s))"

definition ytCancel :: "jobid \<Rightarrow> state \<Rightarrow> bool \<times> state" where
  "ytCancel i s =
     (case mapGet (activeProcesses s) i of
        None \<Rightarrow> (False, s)
      | Some h \<Rightarrow>
          (let s1 = (if paused h then kill (process h) SIGCONT s else s);
               s2 = kill (process h) SIGTERM s1;
               s3 = s2\<lparr>activeProcesses := mapDelete i (activeProcesses s2)\<rparr>
           in (True, onCancelled i s3)))"

text \<open>
  The stdout handler of one download. Its progress part, on the variable
  \<^verbatim>\<open>lastProgress\<close> of the closure: the new value of the variable, and the progress
  it emits, if any.
\<close>

definition progressStep :: "env \<Rightarrow> rat \<Rightarrow> string \<Rightarrow> rat \<times> rat option" where
  "progressStep e lastP output =
     (case progressMatch output of
        None \<Rightarrow> (lastP, None)
      | Some g \<Rightarrow>
          (let p = parseFloat e g in if p > lastP then (p, Some p) else (lastP, None)))"

definition progressStatus :: "rat \<Rightarrow> status" where
  "progressStatus p = (if p < 100 then Downloading else Converting)"

definition live :: "state \<Rightarrow> pid \<Rightarrow> bool" where
  "live s n = (if n < length (procs s) then \<not> closed (procs s ! n) else False)"

definition stdoutData :: "env \<Rightarrow> pid \<Rightarrow> string \<Rightarrow> state \<Rightarrow> state" where
  "stdoutData e n output s =
     (if live s n then
        (let p = procs s ! n;
             res = progressStep e (lastProgress p) output;
             s1 = setProc n (\<lambda>q. q\<lparr>lastProgress := fst res\<rparr>) s;
             s2 = (case snd res of
                     None \<Rightarrow> s1
                   | Some v \<Rightarrow> onProgress (downloadId p) v (progressStatus v) s1)
         in case destinationOf e output of
              None \<Rightarrow> s2
            | Some f \<Rightarrow> setProc n (\<lambda>q. q\<lparr>outputFile := Some f\<rparr>) s2)
      else s)"

definition stderrData :: "pid \<Rightarrow> string \<Rightarrow> state \<Rightarrow> state" where
  "stderrData n output s =
     (if live s n then
        (if strIncludes output ''WARNING'' then s
         else handleError (downloadId (procs s ! n)) output s)
      else s)"

text \<open>
  The promise of \<^verbatim>\<open>download\<close> settles once; its rejection resumes \<^verbatim>\<open>startDownload\<close>
  in the catch block.
\<close>

definition reject :: "pid \<Rightarrow> string \<Rightarrow> state \<Rightarrow> state" where
  "reject n msg s =
     (if settled (procs s ! n) then s
      else await (CatchK (downloadId (procs s ! n)) msg) (setProc n (\<lambda>q. q\<lparr>settled := True\<rparr>) s))"

definition onClose :: "env \<Rightarrow> pid \<Rightarrow> int option \<Rightarrow> state \<Rightarrow> state" where
  "onClose e n code s =
     (if live s n then
        (let p = procs s ! n;
             s1 = setProc n (\<lambda>q. q\<lparr>closed := True\<rparr>)
                    (s\<lparr>activeProcesses := mapDelete (downloadId p) (activeProcesses s)\<rparr>)
         in if code = Some 0 then
              (let file = (if falsy (outputFile p) then recentFile e else outputFile p)
               in setProc n (\<lambda>q. q\<lparr>settled := True\<rparr>) (handleComplete (downloadId p) file s1))
            else reject n ''Download falhou'' (handleError (downloadId p) ''Download falhou'' s1))
      else s)"

definition onProcError :: "pid \<Rightarrow> string \<Rightarrow> state \<Rightarrow> state" where
  "onProcError n msg s =
     (if live s n then
        (let p = procs s ! n;
             s1 = s\<lparr>activeProcesses := mapDelete (downloadId p) (activeProcesses s)\<rparr>
         in reject n msg (handleError (downloadId p) msg s1))
      else s)"

subsection \<open>The control operations\<close>

text \<open>
  Each operation up to its first await, with the value it returns or the error it
  throws. An operation that throws has done nothing before. The history service is
  taken to answer every query: a failure of the database is not modelled.
\<close>

definition pause :: "jobid \<Rightarrow> state \<Rightarrow> (err + bool) \<times> state" where
  "pause i s =
     (case mapGet (queue s) i of
        None \<Rightarrow> (Inl ItemNotFound, s)
      | Some r \<Rightarrow>
          if status (deref s r) \<noteq> Downloading then (Inl NotDownloading, s)
          else (case ytPause i s of
                  (ok, s1) \<Rightarrow>
                    if ok then (Inr True, await (PauseK i r) (modify r (\<lambda>it. it\<lparr>status := Paused\<rparr>) s1))
                    else (Inr False, s1)))"

definition pauseK :: "jobid \<Rightarrow> ref \<Rightarrow> state \<Rightarrow> state" where
  "pauseK i r s = (let s1 = updateStatus i Paused None None s in emit (StatusChange (deref s1 r)) s1)"

definition resume :: "jobid \<Rightarrow> state \<Rightarrow> (err + bool) \<times> state" where
  "resume i s =
     (case mapGet (queue s) i of
        None \<Rightarrow> (Inl ItemNotFound, s)
      | Some r \<Rightarrow>
          if status (deref s r) \<noteq> Paused then (Inl NotPaused, s)
          else (case ytResume i s of
                  (ok, s1) \<Rightarrow>
                    if ok then (Inr True, await (ResumeK i r) (modify r (\<lambda>it. it\<lparr>status := Downloading\<rparr>) s1))
                    else (Inr False, s1)))"

definition resumeK :: "jobid \<Rightarrow> ref \<Rightarrow> state \<Rightarrow> state" where
  "resumeK i r s =
     (let s1 = updateStatus i Downloading None None s in emit (StatusChange (deref s1 r)) s1)"

definition cancelFinish :: "jobid \<Rightarrow> state \<Rightarrow> state" where
  "cancelFinish i s = processNext (emit (Removed i) (s\<lparr>queue := mapDelete i (queue s)\<rparr>))"

definition cancel :: "jobid \<Rightarrow> state \<Rightarrow> (err + bool) \<times> state" where
  "cancel i s =
     (case mapGet (queue s) i of
        None \<Rightarrow> (Inl ItemNotFound, s)
      | Some r \<Rightarrow>
          (let s1 = (if status (deref s r) = Downloading \<or> status (deref s r) = Paused
                     then decrement (snd (ytCancel i s)) else s)
           in if status (deref s1 r) = Pending then (Inr True, await (CancelK i) s1)
              else (Inr True, cancelFinish i s1)))"

definition cancelK :: "jobid \<Rightarrow> state \<Rightarrow> state" where
  "cancelK i s = cancelFinish i (updateStatus i Cancelled None None s)"

definition remove :: "jobid \<Rightarrow> state \<Rightarrow> (err + bool) \<times> state" where
  "remove i s =
     (case mapGet (queue s) i of
        None \<Rightarrow> (Inl ItemNotFound, s)
      | Some r \<Rightarrow>
          if status (deref s r) = Downloading \<or> status (deref s r) = Paused
          then (Inl CancelBeforeRemove, s)
          else (Inr True, emit (Removed i) (s\<lparr>queue := mapDelete i (queue s)\<rparr>)))"

text \<open>
  \<^verbatim>\<open>retry\<close> reads the durable record, writes the pending status and sets a new object
  under the old id, with a new \<^verbatim>\<open>createdAt\<close>.
\<close>

definition retry :: "jobid \<Rightarrow> state \<Rightarrow> state" where
  "retry i s = await (RetryK1 i) s"

definition retryK1 :: "jobid \<Rightarrow> state \<Rightarrow> state" where
  "retryK1 i s =
     (case getById (history s) i of
        None \<Rightarrow> s
      | Some h \<Rightarrow>
          if h_status h = Error \<or> h_status h = Cancelled then await (RetryK2 i h) s else s)"

definition retryItem :: "jobid \<Rightarrow> hrow \<Rightarrow> nat \<Rightarrow> item" where
  "retryItem i h now =
     \<lparr>iid = i, url = h_url h, title = h_title h, status = Pending, progress = 0,
      createdAt = now, itype = h_type h, playlistId = h_playlistId h, playlistName = None,
      thumbnail = None, duration = None, channel = None, error = None, filePath = None,
      finishedAt = None, startTime = None\<rparr>"

definition retryK2 :: "jobid \<Rightarrow> hrow \<Rightarrow> state \<Rightarrow> state" where
  "retryK2 i h s =
     (let s1 = updateStatus i Pending None None s;
          it = retryItem i h (clock s1);
          s2 = s1\<lparr>objs := objs s1 @ [it], queue := mapSet i (length (objs s1)) (queue s1)\<rparr>
      in processNext (emit (Added [it]) s2))"

subsection \<open>Submission\<close>

text \<open>
  \<^verbatim>\<open>add\<close> is modelled twice. First as one step, \<open>add\<close>: what a call does and returns
  when its awaits (on yt-dlp's answer and on the history service) resolve one after the
  other with nothing else running in between and no query failing; \<^verbatim>\<open>addBatch\<close> is a
  loop over it. Then await by await, from \<open>addStart\<close> on, as the other operations are:
  there other calls and handlers can run between the duplicate checks of a video and
  the moment its item is set into the queue.
\<close>

definition videoUrl :: "videoInfo \<Rightarrow> string" where
  "videoUrl v =
     orString (v_url v) (orString (v_webpage_url v) (''https://www.youtube.com/watch?v='' @ v_id v))"

definition existsInMemoryQueue :: "state \<Rightarrow> string \<Rightarrow> item option" where
  "existsInMemoryQueue s u = find (\<lambda>it. url it = u \<and> isActive (status it)) (items s)"

text \<open>The three duplicate checks of the loop body, in the order of the code.\<close>

definition checkDuplicate :: "state \<Rightarrow> videoInfo \<Rightarrow> skipped option" where
  "checkDuplicate s v =
     (let u = videoUrl v in
      case existsInMemoryQueue s u of
        Some it \<Rightarrow>
          Some \<lparr>sk_url = u, sk_title = orString (v_title v) (title it), sk_reason = InQueue,
                sk_existingId = iid it, sk_downloadedAt = None\<rparr>
      | None \<Rightarrow>
          (case existsInQueue (history s) u of
             Some r \<Rightarrow>
               Some \<lparr>sk_url = u, sk_title = orString (v_title v) (h_title r), sk_reason = InQueue,
                     sk_existingId = h_id r, sk_downloadedAt = None\<rparr>
           | None \<Rightarrow>
               (case wasDownloadedSuccessfully (history s) u of
                  Some r \<Rightarrow>
                    Some \<lparr>sk_url = u, sk_title = orString (v_title v) (h_title r),
                          sk_reason = AlreadyDownloaded, sk_existingId = h_id r,
                          sk_downloadedAt = h_finishedAt r\<rparr>
                | None \<Rightarrow> None)))"

definition orNull :: "string option \<Rightarrow> string option" where
  "orNull a = (if falsy a then None else a)"

definition newItem :: "jobid \<Rightarrow> string \<Rightarrow> jobid option \<Rightarrow> videoInfo \<Rightarrow> nat \<Rightarrow> item" where
  "newItem i ty pl v now =
     \<lparr>iid = i, url = videoUrl v, title = orString (v_title v) ''Carregando...'',
      status = Pending, progress = 0, createdAt = now, itype = ty, playlistId = pl,
      playlistName = None, thumbnail = orNull (v_thumbnail v),
      duration = (if v_duration v = Some 0 then None else v_duration v),
      channel = orNull (jsOr (v_uploader v) (v_channel v)),
      error = None, filePath = None, finishedAt = None, startTime = None\<rparr>"

text \<open>
  The rest of the loop body: a new id, the item set into the queue, and the row saved.
  (\<^verbatim>\<open>getInfo\<close> resolves an object without \<^verbatim>\<open>playlistTitle\<close>, so the playlist name is
  always null.)
\<close>

definition createItem :: "string \<Rightarrow> jobid option \<Rightarrow> videoInfo \<Rightarrow> state \<Rightarrow> item \<times> state" where
  "createItem ty pl v s =
     (let i = nextUuid s;
          it = newItem i ty pl v (clock s);
          s1 = s\<lparr>nextUuid := Suc i, objs := objs s @ [it],
                 queue := mapSet i (length (objs s)) (queue s)\<rparr>
      in (it, historyAdd i (url it) (title it) ty pl (channel it) s1))"

fun addLoop ::
  "bool \<Rightarrow> string \<Rightarrow> jobid option \<Rightarrow> videoInfo list \<Rightarrow> item list \<times> skipped list \<Rightarrow> state
     \<Rightarrow> (item list \<times> skipped list) \<times> state" where
  "addLoop force ty pl [] acc s = (acc, s)"
| "addLoop force ty pl (v # vs) acc s =
     (case (if force then None else checkDuplicate s v) of
        Some sk \<Rightarrow> addLoop force ty pl vs (fst acc, snd acc @ [sk]) s
      | None \<Rightarrow>
          (case createItem ty pl v s of
             (it, s1) \<Rightarrow> addLoop force ty pl vs (fst acc @ [it], snd acc) s1))"

definition add ::
  "env \<Rightarrow> string \<Rightarrow> string \<Rightarrow> bool \<Rightarrow> state \<Rightarrow> (err + item list \<times> skipped list) \<times> state" where
  "add e u ty force s =
     (case getInfo e u of
        Inl msg \<Rightarrow> (Inl (AddFailed msg), s)
      | Inr vs \<Rightarrow>
          (let pl = (if ty = ''playlist'' then Some (nextUuid s) else None);
               s1 = (if ty = ''playlist'' then s\<lparr>nextUuid := Suc (nextUuid s)\<rparr> else s)
           in case addLoop force ty pl vs ([], []) s1 of
                (acc, s2) \<Rightarrow>
                  (Inr acc,
                   if fst acc = [] then s2 else processNext (emit (Added (fst acc)) s2))))"

record results =
  success :: nat
  failed :: nat
  skippedCount :: nat
  resultItems :: "item list"
  skippedItems :: "skipped list"
  errors :: "(string \<times> err) list"

fun addBatchLoop ::
  "env \<Rightarrow> string list \<Rightarrow> string \<Rightarrow> bool \<Rightarrow> results \<Rightarrow> state \<Rightarrow> results \<times> state" where
  "addBatchLoop e [] ty force res s = (res, s)"
| "addBatchLoop e (u # us) ty force res s =
     (case add e u ty force s of
        (Inr acc, s1) \<Rightarrow>
          addBatchLoop e us ty force
            (res\<lparr>success := success res + length (fst acc),
                 skippedCount := skippedCount res + length (snd acc),
                 resultItems := resultItems res @ fst acc,
                 skippedItems := skippedItems res @ snd acc\<rparr>) s1
      | (Inl x, s1) \<Rightarrow>
          addBatchLoop e us ty force
            (res\<lparr>failed := failed res + 1, errors := errors res @ [(u, x)]\<rparr>) s1)"

definition addBatch :: "env \<Rightarrow> string list \<Rightarrow> string \<Rightarrow> bool \<Rightarrow> state \<Rightarrow> results \<times> state" where
  "addBatch e us ty force s =
     addBatchLoop e us ty force
       \<lparr>success = 0, failed = 0, skippedCount = 0, resultItems = [], skippedItems = [],
        errors = []\<rparr> s"

subsection \<open>Submission, await by await\<close>

text \<open>
  A call of \<^verbatim>\<open>add\<close> ends: it returns its two arrays (the first holds the objects it
  set into the queue), or it throws.
\<close>

definition addReply :: "string \<Rightarrow> addResult \<Rightarrow> state \<Rightarrow> state" where
  "addReply u res s = s\<lparr>replies := replies s @ [(u, res)]\<rparr>"

text \<open>After the loop: the event and \<^verbatim>\<open>processNext\<close> if an item was created, and the return.\<close>

definition addFinish :: "addCtx \<Rightarrow> state \<Rightarrow> state" where
  "addFinish c s =
     (let s1 = (if a_items c = [] then s
                else processNext (emit (Added (map (deref s) (a_items c))) s))
      in addReply (a_url c) (Inr (a_items c, a_skipped c)) s1)"

definition skipEntry :: "videoInfo \<Rightarrow> string \<Rightarrow> reason \<Rightarrow> jobid \<Rightarrow> nat option \<Rightarrow> skipped" where
  "skipEntry v t rs x d =
     \<lparr>sk_url = videoUrl v, sk_title = orString (v_title v) t, sk_reason = rs,
      sk_existingId = x, sk_downloadedAt = d\<rparr>"

definition addSkip :: "addCtx \<Rightarrow> skipped \<Rightarrow> addCtx" where
  "addSkip c k = c\<lparr>a_skipped := a_skipped c @ [k]\<rparr>"

text \<open>
  The end of the loop body: a new id, the item set into the queue and pushed, and the
  await on \<^verbatim>\<open>historyService.add\<close>, whose arguments are read from the item now.
\<close>

definition addCreate :: "addCtx \<Rightarrow> videoInfo \<Rightarrow> videoInfo list \<Rightarrow> state \<Rightarrow> state" where
  "addCreate c v vs s =
     (let i = nextUuid s;
          it = newItem i (a_type c) (a_playlistId c) v (clock s);
          s1 = s\<lparr>nextUuid := Suc i, objs := objs s @ [it],
                 queue := mapSet i (length (objs s)) (queue s)\<rparr>
      in await (AddSavedK (c\<lparr>a_items := a_items c @ [length (objs s)]\<rparr>) it vs) s1)"

text \<open>
  The loop from a video on, up to the next await: a video found in the memory queue is
  skipped and the loop goes on; otherwise the call waits for \<^verbatim>\<open>existsInQueue\<close>, or,
  with the force flag, creates the item.
\<close>

fun addNext :: "addCtx \<Rightarrow> videoInfo list \<Rightarrow> state \<Rightarrow> state" where
  "addNext c [] s = addFinish c s"
| "addNext c (v # vs) s =
     (if a_force c then addCreate c v vs s
      else case existsInMemoryQueue s (videoUrl v) of
             Some it \<Rightarrow> addNext (addSkip c (skipEntry v (title it) InQueue (iid it) None)) vs s
           | None \<Rightarrow> await (AddInQueueK c v vs) s)"

text \<open>
  The call after each of its awaits. A query of the history is answered from the
  history as it is when the call resumes.
\<close>

definition addInfoK :: "env \<Rightarrow> string \<Rightarrow> string \<Rightarrow> bool \<Rightarrow> state \<Rightarrow> state" where
  "addInfoK e u ty force s =
     (case getInfo e u of
        Inl msg \<Rightarrow> addReply u (Inl (AddFailed msg)) s
      | Inr vs \<Rightarrow>
          (let pl = (if ty = ''playlist'' then Some (nextUuid s) else None);
               s1 = (if ty = ''playlist'' then s\<lparr>nextUuid := Suc (nextUuid s)\<rparr> else s)
           in addNext \<lparr>a_url = u, a_type = ty, a_force = force, a_playlistId = pl,
                       a_items = [], a_skipped = []\<rparr> vs s1))"

definition addInQueueK :: "addCtx \<Rightarrow> videoInfo \<Rightarrow> videoInfo list \<Rightarrow> state \<Rightarrow> state" where
  "addInQueueK c v vs s =
     (case existsInQueue (history s) (videoUrl v) of
        Some r \<Rightarrow> addNext (addSkip c (skipEntry v (h_title r) InQueue (h_id r) None)) vs s
      | None \<Rightarrow> await (AddDownloadedK c v vs) s)"

definition addDownloadedK :: "addCtx \<Rightarrow> videoInfo \<Rightarrow> videoInfo list \<Rightarrow> state \<Rightarrow> state" where
  "addDownloadedK c v vs s =
     (case wasDownloadedSuccessfully (history s) (videoUrl v) of
        Some r \<Rightarrow>
          addNext (addSkip c (skipEntry v (h_title r) AlreadyDownloaded (h_id r) (h_finishedAt r)))
            vs s
      | None \<Rightarrow> addCreate c v vs s)"

text \<open>
  A failed insertion throws out of the loop: the call ends with the error, and the
  items it has set into the queue stay there.
\<close>

definition addSavedK :: "env \<Rightarrow> addCtx \<Rightarrow> item \<Rightarrow> videoInfo list \<Rightarrow> state \<Rightarrow> state" where
  "addSavedK e c it vs s =
     (case insertFails e (url it) of
        Some msg \<Rightarrow> addReply (a_url c) (Inl (AddFailed msg)) s
      | None \<Rightarrow>
          addNext c vs
            (historyAdd (iid it) (url it) (title it) (a_type c) (a_playlistId c) (channel it) s))"

text \<open>The call up to its first await, on \<^verbatim>\<open>getInfo\<close>.\<close>

definition addStart :: "string \<Rightarrow> string \<Rightarrow> bool \<Rightarrow> state \<Rightarrow> state" where
  "addStart u ty force s = await (AddInfoK u ty force) s"

subsection \<open>Runs\<close>

text \<open>
  What can happen next: a call of the interface, data or an exit of a worker, the
  resumption of a suspended function, the clock, and a change of the concurrency
  setting (\<^verbatim>\<open>settingsService.set\<close> accepts a value from 1 to 5, writes the table and
  clears the cache). A call of \<^verbatim>\<open>add\<close> comes in two forms: \<open>Add\<close> runs the call to its
  end in one step, \<open>Submit\<close> starts it and leaves it at its first await.
\<close>

datatype label =
    Add string string bool
  | Submit string string bool
  | AddBatch "string list" string bool
  | PauseOp jobid
  | ResumeOp jobid
  | CancelOp jobid
  | RemoveOp jobid
  | RetryOp jobid
  | Stdout pid string
  | Stderr pid string
  | Close pid "int option"
  | ProcError pid string
  | Run nat
  | Tick nat
  | SetMaxConcurrent nat

fun resumeTask :: "env \<Rightarrow> task \<Rightarrow> state \<Rightarrow> state" where
  "resumeTask e (ProcessNextK c) s = processNextK c s"
| "resumeTask e (StartDownloadK i r) s = startDownloadK i r s"
| "resumeTask e (DetailsK i r) s = detailsK e i r s"
| "resumeTask e (DetailsSavedK i r d) s = detailsSavedK i r d s"
| "resumeTask e (DownloadK i c) s = downloadK i c s"
| "resumeTask e (CatchK i msg) s = handleError i msg s"
| "resumeTask e (HandleCompleteK i r file) s = handleCompleteK e i r file s"
| "resumeTask e (StatsK i r sz) s = finishComplete r sz s"
| "resumeTask e (HandleErrorK i r msg) s = handleErrorK i r msg s"
| "resumeTask e (PauseK i r) s = pauseK i r s"
| "resumeTask e (ResumeK i r) s = resumeK i r s"
| "resumeTask e (CancelK i) s = cancelK i s"
| "resumeTask e (CancelledK i r) s = cancelledK i r s"
| "resumeTask e (RetryK1 i) s = retryK1 i s"
| "resumeTask e (RetryK2 i h) s = retryK2 i h s"
| "resumeTask e (AddInfoK u ty force) s = addInfoK e u ty force s"
| "resumeTask e (AddInQueueK c v vs) s = addInQueueK c v vs s"
| "resumeTask e (AddDownloadedK c v vs) s = addDownloadedK c v vs s"
| "resumeTask e (AddSavedK c it vs) s = addSavedK e c it vs s"

text \<open>The n-th suspended function resumes.\<close>

definition runTask :: "env \<Rightarrow> nat \<Rightarrow> state \<Rightarrow> state" where
  "runTask e n s =
     (if n < length (tasks s)
      then resumeTask e (tasks s ! n) (s\<lparr>tasks := take n (tasks s) @ drop (Suc n) (tasks s)\<rparr>)
      else s)"

fun step :: "env \<Rightarrow> label \<Rightarrow> state \<Rightarrow> state" where
  "step e (Add u ty force) s = snd (add e u ty force s)"
| "step e (Submit u ty force) s = addStart u ty force s"
| "step e (AddBatch us ty force) s = snd (addBatch e us ty force s)"
| "step e (PauseOp i) s = snd (pause i s)"
| "step e (ResumeOp i) s = snd (resume i s)"
| "step e (CancelOp i) s = snd (cancel i s)"
| "step e (RemoveOp i) s = snd (remove i s)"
| "step e (RetryOp i) s = retry i s"
| "step e (Stdout n out) s = stdoutData e n out s"
| "step e (Stderr n out) s = stderrData n out s"
| "step e (Close n code) s = onClose e n code s"
| "step e (ProcError n msg) s = onProcError n msg s"
| "step e (Run n) s = runTask e n s"
| "step e (Tick d) s = s\<lparr>clock := clock s + d\<rparr>"
| "step e (SetMaxConcurrent m) s =
     (if 1 \<le> m \<and> m \<le> 5 then s\<lparr>settingsTable := m, cachedSettings := None\<rparr> else s)"

definition run :: "env \<Rightarrow> label list \<Rightarrow> state \<Rightarrow> state" where
  "run e ls s = foldl (\<lambda>t l. step e l t) s ls"

text \<open>The service as the constructor leaves it, with a concurrency setting.\<close>

definition initial :: "nat \<Rightarrow> state" where
  "initial m =
     \<lparr>queue = [], objs = [], activeDownloads = 0, activeProcesses = [], procs = [],
      history = [], tasks = [], trace = [], nextUuid = 0, clock = 0,
      cachedSettings = None, settingsTable = m, replies = []\<rparr>"

text \<open>What \<^verbatim>\<open>getStats\<close> counts as downloading.\<close>

definition downloading :: "state \<Rightarrow> nat" where
  "downloading s = length (filter (\<lambda>it. status it = Downloading) (items s))"

subsection \<open>The progress values of one output stream\<close>

text \<open>
  The progress values the stdout handler of one download emits on a sequence of
  chunks, \<^verbatim>\<open>lastProgress\<close> being threaded through.
\<close>

fun emitted :: "env \<Rightarrow> rat \<Rightarrow> string list \<Rightarrow> rat list" where
  "emitted e lastP [] = []"
| "emitted e lastP (c # cs) =
     (case snd (progressStep e lastP c) of
        None \<Rightarrow> emitted e (fst (progressStep e lastP c)) cs
      | Some p \<Rightarrow> p # emitted e (fst (progressStep e lastP c)) cs)"

subsection \<open>The outcomes of a batch\<close>

text \<open>
  What each URL of a batch gives when \<^verbatim>\<open>add\<close> is called on it in its turn, in the
  state the earlier URLs left, and the three lists the outcomes split into.
\<close>

type_synonym outcome = "string \<times> (err + item list \<times> skipped list)"

fun outcomes :: "env \<Rightarrow> string list \<Rightarrow> string \<Rightarrow> bool \<Rightarrow> state \<Rightarrow> outcome list" where
  "outcomes e [] ty force s = []"
| "outcomes e (u # us) ty force s =
     (u, fst (add e u ty force s)) # outcomes e us ty force (snd (add e u ty force s))"

fun failures :: "outcome list \<Rightarrow> (string \<times> err) list" where
  "failures [] = []"
| "failures ((u, Inl x) # os) = (u, x) # failures os"
| "failures ((u, Inr a) # os) = failures os"

fun created :: "outcome list \<Rightarrow> item list" where
  "created [] = []"
| "created ((u, Inl x) # os) = created os"
| "created ((u, Inr a) # os) = fst a @ created os"

fun skips :: "outcome list \<Rightarrow> skipped list" where
  "skips [] = []"
| "skips ((u, Inl x) # os) = skips os"
| "skips ((u, Inr a) # os) = snd a @ skips os"

subsection \<open>Duplicates\<close>

text \<open>
  The registry as the service keeps it: every id was given out by \<^verbatim>\<open>uuidv4\<close> before,
  and every reference points to an object of the store.
\<close>

definition wellFormed :: "state \<Rightarrow> bool" where
  "wellFormed s = list_all (\<lambda>p. fst p < nextUuid s \<and> snd p < length (objs s)) (queue s)"

text \<open>
  The outcome of the three duplicate checks for a URL, and what it means for the
  result of \<^verbatim>\<open>add\<close> on a list of videos that a URL is skipped for a reason and a
  prior id: no created item has the URL, every skipped entry with the URL carries the
  reason and the id, and there is one such entry for each video of the list with the
  URL.
\<close>

definition duplicateOf :: "state \<Rightarrow> string \<Rightarrow> (reason \<times> jobid) option" where
  "duplicateOf s u =
     (case existsInMemoryQueue s u of
        Some it \<Rightarrow> Some (InQueue, iid it)
      | None \<Rightarrow>
          (case existsInQueue (history s) u of
             Some r \<Rightarrow> Some (InQueue, h_id r)
           | None \<Rightarrow>
               (case wasDownloadedSuccessfully (history s) u of
                  Some r \<Rightarrow> Some (AlreadyDownloaded, h_id r)
                | None \<Rightarrow> None)))"

definition skippedAs :: "string \<Rightarrow> reason \<Rightarrow> jobid \<Rightarrow> videoInfo list \<Rightarrow> item list \<Rightarrow> skipped list \<Rightarrow> bool" where
  "skippedAs u rs x vs its sks =
     (list_all (\<lambda>it. url it \<noteq> u) its
      \<and> list_all (\<lambda>k. sk_url k = u \<longrightarrow> sk_reason k = rs \<and> sk_existingId k = x) sks
      \<and> length (filter (\<lambda>k. sk_url k = u) sks) = length (filter (\<lambda>v. videoUrl v = u) vs))"

subsection \<open>Reading a run\<close>

text \<open>The status and the submission time of a job of the registry.\<close>

definition statusOf :: "state \<Rightarrow> jobid \<Rightarrow> status option" where
  "statusOf s i = map_option (\<lambda>r. status (deref s r)) (mapGet (queue s) i)"





subsection \<open>Sample inputs\<close>

text \<open>
  A video whose metadata yt-dlp returns in full, and an environment in which every URL
  but one resolves to a single video, no file is found on disk, and no output path is
  detected; every percentage of the samples is a double, which \<^verbatim>\<open>parseFloat\<close> gives as
  it is written, and no insertion fails.
\<close>

definition video :: "string \<Rightarrow> videoInfo" where
  "video n =
     \<lparr>v_id = n, v_url = Some n, v_webpage_url = None, v_title = Some n,
      v_uploader = Some ''ch'', v_channel = None, v_thumbnail = None, v_duration = None\<rparr>"

definition sampleEnv :: env where
  "sampleEnv =
     \<lparr>getInfo = (\<lambda>u. if u = ''bad'' then Inl ''unreachable'' else Inr [video u]),
      getVideoDetails = (\<lambda>u. Inl ''none''),
      fileSize = (\<lambda>f. 0), recentFile = None, destinationOf = (\<lambda>c. None),
      parseFloat = decimalValue, insertFails = (\<lambda>u. None)\<rparr>"

text \<open>One job submitted, admitted, and its worker spawned.\<close>

definition oneStarted :: "label list" where
  "oneStarted = [Add ''a'' ''video'' False, Run 0, Run 0, Run 0]"

text \<open>Output of the worker: a line is printed twice, and one goes back.\<close>

definition sampleOutput :: "string list" where
  "sampleOutput = [''[download]   0.0% of 3.50MiB'', ''[download]  10.5% of 3.50MiB'',
                   ''[download]  10.5% of 3.50MiB'', ''[download]   7.0% of 3.50MiB'',
                   ''[download] 100% of 3.50MiB'']"

text \<open>
  Three jobs under a limit of one. The first is admitted and its worker spawned, the
  second and the third wait. The first is cancelled; the \<^verbatim>\<open>processNext\<close> that
  \<^verbatim>\<open>cancel\<close> called admits the second; the listener of the cancelled event resumes
  and calls \<^verbatim>\<open>processNext\<close> again, which admits the third.
\<close>

definition overAdmit :: "label list" where
  "overAdmit =
     oneStarted @
     [Add ''b'' ''video'' False, Run 0, Add ''c'' ''video'' False, Run 0,
      CancelOp 0, Run 1, Run 0, Run 1]"

text \<open>One job, paused, with the write of the paused status completed.\<close>

definition pausedJob :: "label list" where
  "pausedJob = oneStarted @ [PauseOp 0, Run 0]"

text \<open>
  One running job is cancelled; \<^verbatim>\<open>processNext\<close> resumes, then the listener of the
  cancelled event.
\<close>

definition cancelRunning :: "label list" where
  "cancelRunning = oneStarted @ [CancelOp 0, Run 1, Run 0]"

text \<open>One running job whose worker has printed 100%.\<close>

definition convertingJob :: "label list" where
  "convertingJob = oneStarted @ [Stdout 0 ''[download] 100% of 3.50MiB'']"




text \<open>
  A URL whose job waits in the registry; one whose job was removed from the registry
  while its durable record is still pending; one whose download has completed.
\<close>

definition queuedOnce :: "label list" where
  "queuedOnce = [Add ''a'' ''video'' False]"

definition droppedFromRegistry :: "label list" where
  "droppedFromRegistry = [Add ''a'' ''video'' False, RemoveOp 0]"

definition completedJob :: "label list" where
  "completedJob = oneStarted @ [Close 0 (Some 0), Run 0]"

subsection \<open>Further readings and samples\<close>

text \<open>The progress events of a job in a trace: the progress and the status each carries.\<close>

fun progressOf :: "jobid \<Rightarrow> obs list \<Rightarrow> (rat \<times> status) list" where
  "progressOf i [] = []"
| "progressOf i (Emit (Progress it) # tr) =
     (if iid it = i then (progress it, status it) # progressOf i tr else progressOf i tr)"
| "progressOf i (ob # tr) = progressOf i tr"

text \<open>
  One running job whose worker has reported 50% and then written a line without
  WARNING to stderr: the job is marked as failed, the worker runs on. The job is
  retried and admitted again, and a second worker is spawned for the same id.
\<close>

definition retriedRunning :: "label list" where
  "retriedRunning =
     oneStarted @
     [Stdout 0 ''[download]  50.0% of 3.50MiB'',
      Stderr 0 ''ERROR: unable to download video data'', Run 0, Run 0,
      RetryOp 0, Run 0, Run 0, Run 0, Run 0, Run 0, Run 0]"

text \<open>Output of the two workers, each stream going up.\<close>

definition twoStreams :: "label list" where
  "twoStreams =
     [Stdout 1 ''[download]  20.0% of 3.50MiB'', Stdout 0 ''[download]  60.0% of 3.50MiB'',
      Stdout 1 ''[download]  30.0% of 3.50MiB'']"

text \<open>
  Two calls of \<^verbatim>\<open>add\<close> for one URL, the second made while the first waits for
  \<^verbatim>\<open>getInfo\<close>; the awaits of the two calls resolve in turn. First up to the moment
  when the first call has set its item into the queue and waits for the insertion of
  the row, the second waiting for \<^verbatim>\<open>wasDownloadedSuccessfully\<close>; then to the end of
  both calls.
\<close>

definition firstCreated :: "label list" where
  "firstCreated =
     [Submit ''a'' ''video'' False, Submit ''a'' ''video'' False,
      Run 0, Run 0, Run 0, Run 0, Run 0]"

definition overlapping :: "label list" where
  "overlapping = firstCreated @ [Run 0, Run 0, Run 0]"

text \<open>
  The same two calls, the second made when the first has returned (and the
  \<^verbatim>\<open>processNext\<close> it called is still suspended).
\<close>

definition oneAfterTheOther :: "label list" where
  "oneAfterTheOther =
     [Submit ''a'' ''video'' False, Run 0, Run 0, Run 0, Run 0,
      Submit ''a'' ''video'' False, Run 1]"

section \<open>Properties\<close>

subsection \<open>Auxiliary facts\<close>

lemma run_Cons: "run e (l # ls) s = run e ls (step e l s)"
  by (simp add: run_def)


lemma find_append:
  "find P (xs @ ys) = (case find P xs of Some x \<Rightarrow> Some x | None \<Rightarrow> find P ys)"
  by (induction xs) auto

lemma find_Some_set: "find P xs = Some x \<Longrightarrow> x \<in> set xs \<and> P x"
  by (induction xs) (auto split: if_splits)

lemma newest_in_set: "newest lt rs = Some r \<Longrightarrow> r \<in> set rs"
  by (induction rs arbitrary: r) (auto split: option.splits if_splits)

lemma mapSet_fresh: "k \<notin> fst ` set m \<Longrightarrow> mapSet k v m = m @ [(k, v)]"
  by (induction m) auto

lemma trace_setProc [simp]: "trace (setProc n f s) = trace s"
  by (simp add: setProc_def)

lemma queue_setProc [simp]: "queue (setProc n f s) = queue s"
  by (simp add: setProc_def)

lemma trace_await [simp]: "trace (await t s) = trace s"
  by (simp add: await_def)

lemma trace_processNext [simp]: "trace (processNext s) = trace s"
  by (simp add: processNext_def)

lemma trace_decrement [simp]: "trace (decrement s) = trace s"
  by (simp add: decrement_def)

lemma trace_reject [simp]: "trace (reject n msg s) = trace s"
  by (simp add: reject_def)

subsection \<open>The concurrency limit\<close>

text \<open>
  C1 asks that the number of items with status downloading never exceeds the
  configured limit, and that \<^verbatim>\<open>activeDownloads\<close> counts the running items. The run
  below ends, under a limit of 1, with two items downloading and a ledger of 1:
  cancelling a running job decrements the ledger in \<^verbatim>\<open>cancel\<close> and again in the
  listener of the cancelled event, and each decrement is followed by an admission.
\<close>

theorem concurrency_limit_exceeded:
  "maxConcurrentOf (settingsTable (run sampleEnv overAdmit (initial 1))) = 1
   \<and> downloading (run sampleEnv overAdmit (initial 1)) = 2
   \<and> activeDownloads (run sampleEnv overAdmit (initial 1)) = 1"
  by code_simp

subsection \<open>Cancelling a paused job\<close>

text \<open>
  C2 asks that cancelling a paused job moves it to cancelled without passing through
  downloading, and decrements \<^verbatim>\<open>activeDownloads\<close> once. In the run below the
  status goes from paused to cancelled and no statusChange event reports downloading
  in between, but the ledger goes from 1 to 0 in \<^verbatim>\<open>cancel\<close> and from 0 to -1 when
  the listener of the cancelled event resumes.
\<close>

theorem cancel_paused_decrements_twice:
  "statusOf (run sampleEnv pausedJob (initial 2)) 0 = Some Paused
   \<and> activeDownloads (run sampleEnv pausedJob (initial 2)) = 1
   \<and> status (deref (run sampleEnv (pausedJob @ [CancelOp 0]) (initial 2)) 0) = Cancelled
   \<and> activeDownloads (run sampleEnv (pausedJob @ [CancelOp 0]) (initial 2)) = 0
   \<and> tasks (run sampleEnv (pausedJob @ [CancelOp 0]) (initial 2))
       = [CancelledK 0 0, ProcessNextK (Some 2)]
   \<and> activeDownloads (run sampleEnv (pausedJob @ [CancelOp 0, Run 1, Run 0]) (initial 2)) = - 1
   \<and> signals (procs (run sampleEnv (pausedJob @ [CancelOp 0, Run 1, Run 0]) (initial 2)) ! 0)
       = [SIGSTOP, SIGCONT, SIGTERM]
   \<and> [status it. Emit (StatusChange it) \<leftarrow> trace (run sampleEnv (pausedJob @ [CancelOp 0, Run 1, Run 0]) (initial 2))]
       = [Downloading, Paused, Paused, Cancelled]"
  by code_simp

subsection \<open>Submission without the force flag\<close>

lemma checkDuplicate_Some:
  "checkDuplicate s v = Some k \<Longrightarrow>
     sk_url k = videoUrl v \<and> duplicateOf s (videoUrl v) = Some (sk_reason k, sk_existingId k)"
  by (auto simp: checkDuplicate_def duplicateOf_def Let_def split: option.splits)

lemma checkDuplicate_None:
  "checkDuplicate s v = None \<Longrightarrow> duplicateOf s (videoUrl v) = None"
  by (auto simp: checkDuplicate_def duplicateOf_def Let_def split: option.splits)

lemma createItem_items:
  assumes "wellFormed s"
  shows "items (snd (createItem ty pl v s)) = items s @ [fst (createItem ty pl v s)]"
    and "wellFormed (snd (createItem ty pl v s))"
    and "url (fst (createItem ty pl v s)) = videoUrl v"
    and "history (snd (createItem ty pl v s)) =
           history s @ [\<lparr>h_id = nextUuid s, h_url = videoUrl v,
              h_title = title (fst (createItem ty pl v s)), h_status = Pending,
              h_createdAt = clock s, h_finishedAt = None, h_filePath = None, h_error = None,
              h_type = ty, h_playlistId = pl, h_channel = channel (fst (createItem ty pl v s))\<rparr>]"
proof -
  from assms have fresh: "nextUuid s \<notin> fst ` set (queue s)"
    and refs: "\<forall>p \<in> set (queue s). snd p < length (objs s)"
    and keys: "\<forall>p \<in> set (queue s). fst p < nextUuid s"
    by (auto simp: wellFormed_def list_all_iff)
  have q: "mapSet (nextUuid s) (length (objs s)) (queue s) = queue s @ [(nextUuid s, length (objs s))]"
    by (rule mapSet_fresh [OF fresh])
  show "items (snd (createItem ty pl v s)) = items s @ [fst (createItem ty pl v s)]"
    using refs by (simp add: createItem_def Let_def historyAdd_def items_def deref_def q nth_append)
  show "wellFormed (snd (createItem ty pl v s))"
    using refs keys
    by (auto simp: createItem_def Let_def historyAdd_def wellFormed_def q list_all_iff)
  show "url (fst (createItem ty pl v s)) = videoUrl v"
    by (simp add: createItem_def Let_def newItem_def)
  show "history (snd (createItem ty pl v s)) =
           history s @ [\<lparr>h_id = nextUuid s, h_url = videoUrl v,
              h_title = title (fst (createItem ty pl v s)), h_status = Pending,
              h_createdAt = clock s, h_finishedAt = None, h_filePath = None, h_error = None,
              h_type = ty, h_playlistId = pl, h_channel = channel (fst (createItem ty pl v s))\<rparr>]"
    by (simp add: createItem_def Let_def historyAdd_def newItem_def)
qed

lemma createItem_duplicateOf:
  assumes "wellFormed s" "videoUrl v \<noteq> u"
  shows "duplicateOf (snd (createItem ty pl v s)) u = duplicateOf s u"
proof -
  note ci = createItem_items [OF assms(1), of ty pl v]
  have m: "existsInMemoryQueue (snd (createItem ty pl v s)) u = existsInMemoryQueue s u"
    using ci(1) ci(3) assms(2)
    by (simp add: existsInMemoryQueue_def find_append split: option.splits)
  have h1: "existsInQueue (history (snd (createItem ty pl v s))) u = existsInQueue (history s) u"
    using assms(2) by (simp add: ci(4) existsInQueue_def)
  have h2: "wasDownloadedSuccessfully (history (snd (createItem ty pl v s))) u
              = wasDownloadedSuccessfully (history s) u"
    using assms(2) by (simp add: ci(4) wasDownloadedSuccessfully_def)
  show ?thesis unfolding duplicateOf_def m h1 h2 by (rule refl)
qed

lemma addLoop_duplicates:
  assumes "wellFormed s" "duplicateOf s u = Some (rs, x)"
  shows "\<exists>its sks. fst (addLoop False ty pl vs acc s) = (fst acc @ its, snd acc @ sks)
           \<and> skippedAs u rs x vs its sks"
  using assms
proof (induction vs arbitrary: acc s)
  case Nil
  show ?case by (intro exI [of _ "[]"]) (simp add: skippedAs_def)
next
  case (Cons v vs)
  show ?case
  proof (cases "checkDuplicate s v")
    case (Some k)
    note k = checkDuplicate_Some [OF Some]
    from Cons.IH [OF Cons.prems, of "(fst acc, snd acc @ [k])"]
    obtain its sks where r:
      "fst (addLoop False ty pl vs (fst acc, snd acc @ [k]) s) = (fst acc @ its, (snd acc @ [k]) @ sks)"
      "skippedAs u rs x vs its sks"
      by auto
    have "skippedAs u rs x (v # vs) its (k # sks)"
      using r(2) k Cons.prems(2) by (auto simp: skippedAs_def)
    with r(1) Some show ?thesis
      by (intro exI [of _ its] exI [of _ "k # sks"]) simp
  next
    case None
    from checkDuplicate_None [OF None] Cons.prems(2) have ne: "videoUrl v \<noteq> u" by auto
    obtain it s1 where c: "createItem ty pl v s = (it, s1)" by (cases "createItem ty pl v s")
    note ci = createItem_items [OF Cons.prems(1), of ty pl v, unfolded c, simplified]
    have d1: "duplicateOf s1 u = Some (rs, x)"
      using createItem_duplicateOf [OF Cons.prems(1) ne, of ty pl] c Cons.prems(2) by simp
    from Cons.IH [OF ci(2) d1, of "(fst acc @ [it], snd acc)"]
    obtain its sks where r:
      "fst (addLoop False ty pl vs (fst acc @ [it], snd acc) s1) = ((fst acc @ [it]) @ its, snd acc @ sks)"
      "skippedAs u rs x vs its sks"
      by auto
    have "skippedAs u rs x (v # vs) (it # its) sks"
      using r(2) ne ci(3) by (auto simp: skippedAs_def)
    with r(1) None c show ?thesis
      by (intro exI [of _ "it # its"] exI [of _ sks]) simp
  qed
qed

lemma addLoop_items:
  assumes "wellFormed s"
  shows "\<exists>its sks. fst (addLoop force ty pl vs acc s) = (fst acc @ its, snd acc @ sks)
           \<and> items (snd (addLoop force ty pl vs acc s)) = items s @ its"
  using assms
proof (induction vs arbitrary: acc s)
  case Nil
  show ?case by (intro exI [of _ "[]"]) simp
next
  case (Cons v vs)
  show ?case
  proof (cases "if force then None else checkDuplicate s v")
    case (Some k)
    from Cons.IH [OF Cons.prems, of "(fst acc, snd acc @ [k])"]
    obtain its sks where r:
      "fst (addLoop force ty pl vs (fst acc, snd acc @ [k]) s) = (fst acc @ its, (snd acc @ [k]) @ sks)"
      "items (snd (addLoop force ty pl vs (fst acc, snd acc @ [k]) s)) = items s @ its"
      by auto
    with Some show ?thesis
      by (intro exI [of _ its] exI [of _ "k # sks"]) simp
  next
    case None
    obtain it s1 where c: "createItem ty pl v s = (it, s1)" by (cases "createItem ty pl v s")
    note ci = createItem_items [OF Cons.prems(1), of ty pl v, unfolded c, simplified]
    from Cons.IH [OF ci(2), of "(fst acc @ [it], snd acc)"]
    obtain its sks where r:
      "fst (addLoop force ty pl vs (fst acc @ [it], snd acc) s1) = ((fst acc @ [it]) @ its, snd acc @ sks)"
      "items (snd (addLoop force ty pl vs (fst acc @ [it], snd acc) s1)) = items s1 @ its"
      by auto
    with None c ci(1) show ?thesis
      by (intro exI [of _ "it # its"] exI [of _ sks]) simp
  qed
qed

text \<open>
  A call of \<^verbatim>\<open>add\<close> that nothing interrupts, without the force flag, on a URL that yt-dlp resolves to the videos
  \<open>vs\<close>. For every video of the list: when its URL has a pending, downloading or paused
  item in the registry, no item is created for the URL and each entry of
  \<^verbatim>\<open>skippedItems\<close> for the URL (there is one for each occurrence of the URL in the
  list) has the reason in_queue and the id of that item; when the registry has none but
  the history has a pending, downloading or paused row for the URL, the same holds with
  the id of that row; when neither has one but the history has a completed row, the
  reason is already_downloaded and the id is that row's. The registry after the call is
  the registry before it followed by the created items.
\<close>

lemma add_alone_skips_duplicates:
  assumes "wellFormed s" and "getInfo e u0 = Inr vs" and "v \<in> set vs"
  shows "\<exists>its sks. fst (add e u0 ty False s) = Inr (its, sks)
           \<and> items (snd (add e u0 ty False s)) = items s @ its
           \<and> (\<forall>it. existsInMemoryQueue s (videoUrl v) = Some it \<longrightarrow>
                 it \<in> set (items s) \<and> url it = videoUrl v \<and> isActive (status it)
               \<and> skippedAs (videoUrl v) InQueue (iid it) vs its sks)
           \<and> (\<forall>r. existsInMemoryQueue s (videoUrl v) = None
                  \<and> existsInQueue (history s) (videoUrl v) = Some r \<longrightarrow>
                 r \<in> set (history s) \<and> h_url r = videoUrl v \<and> isActive (h_status r)
               \<and> skippedAs (videoUrl v) InQueue (h_id r) vs its sks)
           \<and> (\<forall>r. existsInMemoryQueue s (videoUrl v) = None
                  \<and> existsInQueue (history s) (videoUrl v) = None
                  \<and> wasDownloadedSuccessfully (history s) (videoUrl v) = Some r \<longrightarrow>
                 r \<in> set (history s) \<and> h_url r = videoUrl v \<and> h_status r = Completed
               \<and> skippedAs (videoUrl v) AlreadyDownloaded (h_id r) vs its sks)
           \<and> 0 < length (filter (\<lambda>w. videoUrl w = videoUrl v) vs)"
proof -
  let ?u = "videoUrl v"
  let ?pl = "if ty = ''playlist'' then Some (nextUuid s) else None"
  let ?s1 = "if ty = ''playlist'' then s\<lparr>nextUuid := Suc (nextUuid s)\<rparr> else s"
  let ?L = "addLoop False ty ?pl vs ([], []) ?s1"
  have wf1: "wellFormed ?s1" using assms(1) by (auto simp: wellFormed_def list_all_iff)
  have it1: "items ?s1 = items s" by (simp add: items_def deref_def)
  have h1: "history ?s1 = history s" by simp
  have d1: "duplicateOf ?s1 ?u = duplicateOf s ?u"
    unfolding duplicateOf_def existsInMemoryQueue_def it1 h1 by (rule refl)
  have pos: "0 < length (filter (\<lambda>w. videoUrl w = ?u) vs)"
    using assms(3) by (auto simp: filter_empty_conv)
  have itemsP: "\<And>t ev. items (processNext (emit ev t)) = items t"
    by (simp add: processNext_def await_def emit_def items_def deref_def)
  have addfst: "fst (add e u0 ty False s) = Inr (fst ?L)"
    using assms(2) by (simp add: add_def Let_def split: prod.splits)
  have addsnd: "items (snd (add e u0 ty False s)) = items (snd ?L)"
    using assms(2) by (simp add: add_def Let_def itemsP split: prod.splits)
  from addLoop_items [OF wf1, of False ty ?pl vs "([], [])"]
  obtain its sks where r: "fst ?L = (its, sks)" "items (snd ?L) = items ?s1 @ its"
    by auto
  have sk: "skippedAs ?u rs x vs its sks" if "duplicateOf s ?u = Some (rs, x)" for rs x
  proof -
    from that d1 have "duplicateOf ?s1 ?u = Some (rs, x)" by simp
    from addLoop_duplicates [OF wf1 this, of ty ?pl vs "([], [])"]
    obtain its' sks' where r': "fst ?L = (its', sks')" "skippedAs ?u rs x vs its' sks'"
      by auto
    from r(1) r'(1) have "its' = its" "sks' = sks" by simp_all
    with r'(2) show ?thesis by simp
  qed
  have a: "fst (add e u0 ty False s) = Inr (its, sks)"
    using addfst r(1) by simp
  have b: "items (snd (add e u0 ty False s)) = items s @ its"
    using addsnd r(2) it1 by simp
  have c1: "\<forall>it. existsInMemoryQueue s ?u = Some it \<longrightarrow>
               it \<in> set (items s) \<and> url it = ?u \<and> isActive (status it)
             \<and> skippedAs ?u InQueue (iid it) vs its sks"
  proof (intro allI impI)
    fix it assume m: "existsInMemoryQueue s ?u = Some it"
    then have "duplicateOf s ?u = Some (InQueue, iid it)" by (simp add: duplicateOf_def)
    from sk [OF this] m find_Some_set [of "\<lambda>it. url it = ?u \<and> isActive (status it)" "items s" it]
    show "it \<in> set (items s) \<and> url it = ?u \<and> isActive (status it)
             \<and> skippedAs ?u InQueue (iid it) vs its sks"
      by (simp add: existsInMemoryQueue_def)
  qed
  have c2: "\<forall>r. existsInMemoryQueue s ?u = None \<and> existsInQueue (history s) ?u = Some r \<longrightarrow>
               r \<in> set (history s) \<and> h_url r = ?u \<and> isActive (h_status r)
             \<and> skippedAs ?u InQueue (h_id r) vs its sks"
  proof (intro allI impI)
    fix r assume m: "existsInMemoryQueue s ?u = None \<and> existsInQueue (history s) ?u = Some r"
    then have "duplicateOf s ?u = Some (InQueue, h_id r)" by (simp add: duplicateOf_def)
    from sk [OF this] m
      newest_in_set [of createdBefore "filter (\<lambda>r. h_url r = ?u \<and> isActive (h_status r)) (history s)" r]
    show "r \<in> set (history s) \<and> h_url r = ?u \<and> isActive (h_status r)
             \<and> skippedAs ?u InQueue (h_id r) vs its sks"
      by (simp add: existsInQueue_def)
  qed
  have c3: "\<forall>r. existsInMemoryQueue s ?u = None \<and> existsInQueue (history s) ?u = None
                \<and> wasDownloadedSuccessfully (history s) ?u = Some r \<longrightarrow>
               r \<in> set (history s) \<and> h_url r = ?u \<and> h_status r = Completed
             \<and> skippedAs ?u AlreadyDownloaded (h_id r) vs its sks"
  proof (intro allI impI)
    fix r assume m: "existsInMemoryQueue s ?u = None \<and> existsInQueue (history s) ?u = None
                \<and> wasDownloadedSuccessfully (history s) ?u = Some r"
    then have "duplicateOf s ?u = Some (AlreadyDownloaded, h_id r)" by (simp add: duplicateOf_def)
    from sk [OF this] m
      newest_in_set [of finishedBefore "filter (\<lambda>r. h_url r = ?u \<and> h_status r = Completed) (history s)" r]
    show "r \<in> set (history s) \<and> h_url r = ?u \<and> h_status r = Completed
             \<and> skippedAs ?u AlreadyDownloaded (h_id r) vs its sks"
      by (simp add: wasDownloadedSuccessfully_def)
  qed
  show ?thesis
    apply (rule exI [of _ its])
    apply (rule exI [of _ sks])
    using a b c1 c2 c3 pos apply (intro conjI)
         apply assumption+
    done
qed

lemma add_alone_skips_duplicates_example:
  "wellFormed (run sampleEnv queuedOnce (initial 2))
   \<and> getInfo sampleEnv ''a'' = Inr [video ''a'']
   \<and> videoUrl (video ''a'') = ''a''
   \<and> map_option iid (existsInMemoryQueue (run sampleEnv queuedOnce (initial 2)) ''a'') = Some 0
   \<and> (\<exists>its sks. fst (add sampleEnv ''a'' ''video'' False (run sampleEnv queuedOnce (initial 2))) = Inr (its, sks)
          \<and> skippedAs ''a'' InQueue 0 [video ''a''] its sks)
   \<and> wellFormed (run sampleEnv droppedFromRegistry (initial 2))
   \<and> existsInMemoryQueue (run sampleEnv droppedFromRegistry (initial 2)) ''a'' = None
   \<and> map_option h_id (existsInQueue (history (run sampleEnv droppedFromRegistry (initial 2))) ''a'') = Some 0
   \<and> (\<exists>its sks. fst (add sampleEnv ''a'' ''video'' False (run sampleEnv droppedFromRegistry (initial 2))) = Inr (its, sks)
          \<and> skippedAs ''a'' InQueue 0 [video ''a''] its sks)
   \<and> wellFormed (run sampleEnv completedJob (initial 2))
   \<and> existsInMemoryQueue (run sampleEnv completedJob (initial 2)) ''a'' = None
   \<and> existsInQueue (history (run sampleEnv completedJob (initial 2))) ''a'' = None
   \<and> map_option h_id (wasDownloadedSuccessfully (history (run sampleEnv completedJob (initial 2))) ''a'') = Some 0
   \<and> (\<exists>its sks. fst (add sampleEnv ''a'' ''video'' False (run sampleEnv completedJob (initial 2))) = Inr (its, sks)
          \<and> skippedAs ''a'' AlreadyDownloaded 0 [video ''a''] its sks)"
proof -
  let ?s0 = "run sampleEnv queuedOnce (initial 2)"
  let ?s1 = "run sampleEnv droppedFromRegistry (initial 2)"
  let ?s2 = "run sampleEnv completedJob (initial 2)"
  have g: "getInfo sampleEnv ''a'' = Inr [video ''a'']" by code_simp
  have v: "video ''a'' \<in> set [video ''a'']" by simp
  have u: "videoUrl (video ''a'') = ''a''" by code_simp
  have w0: "wellFormed ?s0" by code_simp
  have w1: "wellFormed ?s1" by code_simp
  have w2: "wellFormed ?s2" by code_simp
  have m0: "map_option iid (existsInMemoryQueue ?s0 ''a'') = Some 0" by code_simp
  have m1: "existsInMemoryQueue ?s1 ''a'' = None" by code_simp
  have q1: "map_option h_id (existsInQueue (history ?s1) ''a'') = Some 0" by code_simp
  have m2: "existsInMemoryQueue ?s2 ''a'' = None" by code_simp
  have q2: "existsInQueue (history ?s2) ''a'' = None" by code_simp
  have d2: "map_option h_id (wasDownloadedSuccessfully (history ?s2) ''a'') = Some 0" by code_simp
  have r0: "\<exists>its sks. fst (add sampleEnv ''a'' ''video'' False ?s0) = Inr (its, sks)
          \<and> skippedAs ''a'' InQueue 0 [video ''a''] its sks"
    using add_alone_skips_duplicates [OF w0 g v, of "''video''"] m0 unfolding u by fastforce
  have r1: "\<exists>its sks. fst (add sampleEnv ''a'' ''video'' False ?s1) = Inr (its, sks)
          \<and> skippedAs ''a'' InQueue 0 [video ''a''] its sks"
    using add_alone_skips_duplicates [OF w1 g v, of "''video''"] m1 q1 unfolding u by fastforce
  have r2: "\<exists>its sks. fst (add sampleEnv ''a'' ''video'' False ?s2) = Inr (its, sks)
          \<and> skippedAs ''a'' AlreadyDownloaded 0 [video ''a''] its sks"
    using add_alone_skips_duplicates [OF w2 g v, of "''video''"] m2 q2 d2 unfolding u by fastforce
  from g u w0 w1 w2 m0 m1 q1 m2 q2 d2 r0 r1 r2 show ?thesis by (intro conjI)
qed

text \<open>The call on the sample registry: nothing created, one skip, the state unchanged.\<close>

lemma add_duplicate_example:
  "fst (add sampleEnv ''a'' ''video'' False (run sampleEnv queuedOnce (initial 2)))
     = Inr ([], [\<lparr>sk_url = ''a'', sk_title = ''a'', sk_reason = InQueue, sk_existingId = 0,
                   sk_downloadedAt = None\<rparr>])
   \<and> snd (add sampleEnv ''a'' ''video'' False (run sampleEnv queuedOnce (initial 2)))
     = run sampleEnv queuedOnce (initial 2)"
  by code_simp

text \<open>
  C3: two calls of \<^verbatim>\<open>add\<close> for one URL, without the force flag, the second made
  while the first waits for yt-dlp. Each passes its three checks before the other has
  set its item into the queue. When the first call has created its job, the URL has a
  pending job in the memory queue and the second call has not returned; the second
  call then creates a job for the URL as well. Both calls return one created item and
  no skipped entry, and the registry and the history hold two pending jobs for the URL.
\<close>

theorem overlapping_adds_create_two_jobs:
  "map_option (\<lambda>it. (iid it, status it)) (existsInMemoryQueue (run sampleEnv firstCreated (initial 2)) ''a'')
     = Some (0, Pending)
   \<and> replies (run sampleEnv firstCreated (initial 2)) = []
   \<and> map (\<lambda>it. (iid it, url it, status it)) (items (run sampleEnv overlapping (initial 2)))
       = [(0, ''a'', Pending), (1, ''a'', Pending)]
   \<and> replies (run sampleEnv overlapping (initial 2))
       = [(''a'', Inr ([0], [])), (''a'', Inr ([1], []))]
   \<and> map (\<lambda>r. (h_id r, h_url r, h_status r)) (history (run sampleEnv overlapping (initial 2)))
       = [(0, ''a'', Pending), (1, ''a'', Pending)]"
  by code_simp

text \<open>The second call made after the first has returned: it creates nothing and skips.\<close>

lemma later_add_skips:
  "map (\<lambda>it. (iid it, url it, status it)) (items (run sampleEnv oneAfterTheOther (initial 2)))
     = [(0, ''a'', Pending)]
   \<and> replies (run sampleEnv oneAfterTheOther (initial 2))
       = [(''a'', Inr ([0], [])),
          (''a'', Inr ([], [\<lparr>sk_url = ''a'', sk_title = ''a'', sk_reason = InQueue,
                               sk_existingId = 0, sk_downloadedAt = None\<rparr>]))]"
  by code_simp

subsection \<open>Control operations on a job in the wrong state\<close>

text \<open>
  C4: \<^verbatim>\<open>pause\<close> on a registry item whose status is not downloading throws, and
  \<^verbatim>\<open>resume\<close> on an item whose status is not paused throws. The state after the call is
  the state before it: no item has changed, nothing was written to the history, no
  event was emitted and no function was left suspended.
\<close>

theorem pause_resume_rejected:
  "(mapGet (queue s) i = Some r \<and> status (deref s r) \<noteq> Downloading
      \<longrightarrow> pause i s = (Inl NotDownloading, s) \<and> step e (PauseOp i) s = s)
 \<and> (mapGet (queue s) i = Some r \<and> status (deref s r) \<noteq> Paused
      \<longrightarrow> resume i s = (Inl NotPaused, s) \<and> step e (ResumeOp i) s = s)"
  by (simp add: pause_def resume_def)

theorem pause_resume_rejected_witness:
  "mapGet (queue (run sampleEnv [Add ''a'' ''video'' False] (initial 2))) 0 = Some 0
   \<and> status (deref (run sampleEnv [Add ''a'' ''video'' False] (initial 2)) 0) = Pending
   \<and> pause 0 (run sampleEnv [Add ''a'' ''video'' False] (initial 2))
       = (Inl NotDownloading, run sampleEnv [Add ''a'' ''video'' False] (initial 2))
   \<and> resume 0 (run sampleEnv [Add ''a'' ''video'' False] (initial 2))
       = (Inl NotPaused, run sampleEnv [Add ''a'' ''video'' False] (initial 2))"
proof -
  let ?s = "run sampleEnv [Add ''a'' ''video'' False] (initial 2)"
  have g: "mapGet (queue ?s) 0 = Some 0" by code_simp
  have st: "status (deref ?s 0) = Pending" by code_simp
  from pause_resume_rejected [of ?s 0 0 sampleEnv] g st show ?thesis by simp
qed

subsection \<open>Progress of one download\<close>

lemma progressStep_cases:
  "(progressStep e l c = (l, None)) \<or> (\<exists>p. p > l \<and> progressStep e l c = (p, Some p))"
  by (auto simp: progressStep_def Let_def split: option.splits)

lemma emitted_above: "list_all (\<lambda>p. l < p) (emitted e l cs)"
proof (induction cs arbitrary: l)
  case Nil
  then show ?case by simp
next
  case (Cons c cs)
  from progressStep_cases [of e l c] show ?case
  proof
    assume "progressStep e l c = (l, None)"
    then show ?thesis using Cons.IH [of l] by simp
  next
    assume "\<exists>p. p > l \<and> progressStep e l c = (p, Some p)"
    then obtain p where p: "p > l" "progressStep e l c = (p, Some p)" by blast
    have "list_all (\<lambda>q. p < q) (emitted e p cs)" by (rule Cons.IH)
    then have "list_all (\<lambda>q. l < q) (emitted e p cs)"
      using p(1) by (auto simp: list_all_iff)
    then show ?thesis using p by simp
  qed
qed

lemma emitted_sorted: "sorted_wrt (<) (emitted e l cs)"
proof (induction cs arbitrary: l)
  case Nil
  then show ?case by simp
next
  case (Cons c cs)
  from progressStep_cases [of e l c] show ?case
  proof
    assume "progressStep e l c = (l, None)"
    then show ?thesis using Cons.IH [of l] by simp
  next
    assume "\<exists>p. p > l \<and> progressStep e l c = (p, Some p)"
    then obtain p where p: "p > l" "progressStep e l c = (p, Some p)" by blast
    have "list_all (\<lambda>q. p < q) (emitted e p cs)" by (rule emitted_above)
    then show ?thesis using p Cons.IH [of p] by (auto simp: list_all_iff)
  qed
qed

lemma stdoutData_effect:
  assumes "live s n" "mapGet (queue s) (downloadId (procs s ! n)) = Some r" "r < length (objs s)"
  shows "live (stdoutData e n c s) n
    \<and> queue (stdoutData e n c s) = queue s
    \<and> length (objs (stdoutData e n c s)) = length (objs s)
    \<and> downloadId (procs (stdoutData e n c s) ! n) = downloadId (procs s ! n)
    \<and> lastProgress (procs (stdoutData e n c s) ! n) = fst (progressStep e (lastProgress (procs s ! n)) c)
    \<and> (\<exists>its. trace (stdoutData e n c s) = trace s @ map (\<lambda>it. Emit (Progress it)) its
           \<and> map progress its = emitted e (lastProgress (procs s ! n)) [c])"
proof -
  from assms(1) have n: "n < length (procs s)" and nc: "\<not> closed (procs s ! n)"
    by (auto simp: live_def split: if_splits)
  show ?thesis
  proof (cases "snd (progressStep e (lastProgress (procs s ! n)) c)")
    case None
    then show ?thesis using assms n nc
      by (cases "destinationOf e c")
         (simp_all add: stdoutData_def Let_def setProc_def live_def)
  next
    case (Some p)
    then show ?thesis using assms n nc
      by (cases "destinationOf e c")
         (auto simp add: stdoutData_def Let_def setProc_def live_def onProgress_def
            modify_def emit_def deref_def
            intro!: exI [of _ "[(objs s ! r)\<lparr>progress := p, status := progressStatus p\<rparr>]"])
  qed
qed

lemma emitted_append_one:
  "emitted e l (c # cs) = emitted e l [c] @ emitted e (fst (progressStep e l c)) cs"
  by (simp split: option.splits)

lemma stdout_run:
  "live s n \<Longrightarrow> mapGet (queue s) (downloadId (procs s ! n)) = Some r \<Longrightarrow> r < length (objs s) \<Longrightarrow>
   \<exists>its. trace (run e (map (Stdout n) cs) s) = trace s @ map (\<lambda>it. Emit (Progress it)) its
         \<and> map progress its = emitted e (lastProgress (procs s ! n)) cs"
proof (induction cs arbitrary: s)
  case Nil
  then show ?case by (simp add: run_def)
next
  case (Cons c cs)
  let ?s1 = "stdoutData e n c s"
  note eff = stdoutData_effect [OF Cons.prems, of e c]
  from eff obtain its1 where its1:
    "trace ?s1 = trace s @ map (\<lambda>it. Emit (Progress it)) its1"
    "map progress its1 = emitted e (lastProgress (procs s ! n)) [c]" by blast
  have "\<exists>its. trace (run e (map (Stdout n) cs) ?s1) = trace ?s1 @ map (\<lambda>it. Emit (Progress it)) its
         \<and> map progress its = emitted e (lastProgress (procs ?s1 ! n)) cs"
    using eff Cons.prems by (intro Cons.IH) simp_all
  then obtain its2 where its2:
    "trace (run e (map (Stdout n) cs) ?s1) = trace ?s1 @ map (\<lambda>it. Emit (Progress it)) its2"
    "map progress its2 = emitted e (lastProgress (procs ?s1 ! n)) cs" by blast
  have l1: "lastProgress (procs ?s1 ! n) = fst (progressStep e (lastProgress (procs s ! n)) c)"
    using eff by simp
  have "trace (run e (map (Stdout n) (c # cs)) s)
          = trace s @ map (\<lambda>it. Emit (Progress it)) (its1 @ its2)"
    using its1(1) its2(1) by (simp add: run_Cons)
  moreover have "map progress (its1 @ its2) = emitted e (lastProgress (procs s ! n)) (c # cs)"
    using its1(2) its2(2) l1 emitted_append_one [of e "lastProgress (procs s ! n)" c cs] by simp
  ultimately show ?case by blast
qed

text \<open>
  The progress values that the stdout handler of one call of \<^verbatim>\<open>download\<close> emits are
  strictly increasing, whatever \<^verbatim>\<open>parseFloat\<close> gives, and each is greater than the value
  \<^verbatim>\<open>lastProgress\<close> had before. While the worker's id is in the registry and nothing
  else happens, the queue service emits one progress event for each of them.
\<close>

lemma stream_progress_increasing:
  "sorted_wrt (<) (emitted e l cs) \<and> list_all (\<lambda>p. l < p) (emitted e l cs)
   \<and> (live s n \<and> mapGet (queue s) (downloadId (procs s ! n)) = Some r \<and> r < length (objs s)
        \<longrightarrow> (\<exists>its. trace (run e (map (Stdout n) cs) s) = trace s @ map (\<lambda>it. Emit (Progress it)) its
                  \<and> map progress its = emitted e (lastProgress (procs s ! n)) cs
                  \<and> sorted_wrt (<) (map progress its)))"
proof (intro conjI impI)
  show "sorted_wrt (<) (emitted e l cs)" by (rule emitted_sorted)
  show "list_all (\<lambda>p. l < p) (emitted e l cs)" by (rule emitted_above)
next
  assume h: "live s n \<and> mapGet (queue s) (downloadId (procs s ! n)) = Some r \<and> r < length (objs s)"
  then obtain its where its:
    "trace (run e (map (Stdout n) cs) s) = trace s @ map (\<lambda>it. Emit (Progress it)) its"
    "map progress its = emitted e (lastProgress (procs s ! n)) cs"
    using stdout_run [of s n r e cs] by blast
  have "sorted_wrt (<) (map progress its)" using its(2) emitted_sorted by simp
  with its show "\<exists>its. trace (run e (map (Stdout n) cs) s) = trace s @ map (\<lambda>it. Emit (Progress it)) its
                  \<and> map progress its = emitted e (lastProgress (procs s ! n)) cs
                  \<and> sorted_wrt (<) (map progress its)" by blast
qed

lemma stream_progress_example:
  "live (run sampleEnv oneStarted (initial 2)) 0
   \<and> mapGet (queue (run sampleEnv oneStarted (initial 2)))
        (downloadId (procs (run sampleEnv oneStarted (initial 2)) ! 0)) = Some 0
   \<and> 0 < length (objs (run sampleEnv oneStarted (initial 2)))
   \<and> emitted sampleEnv 0 sampleOutput = [21 / 2, 100]
   \<and> (\<exists>its. trace (run sampleEnv (map (Stdout 0) sampleOutput) (run sampleEnv oneStarted (initial 2)))
               = trace (run sampleEnv oneStarted (initial 2)) @ map (\<lambda>it. Emit (Progress it)) its
            \<and> map progress its = [21 / 2, 100])"
proof -
  let ?s = "run sampleEnv oneStarted (initial 2)"
  have a: "live ?s 0" by code_simp
  have b: "mapGet (queue ?s) (downloadId (procs ?s ! 0)) = Some 0" by code_simp
  have c: "0 < length (objs ?s)" by code_simp
  have d: "lastProgress (procs ?s ! 0) = 0" by code_simp
  have f: "emitted sampleEnv 0 sampleOutput = [21 / 2, 100]" by code_simp
  from stream_progress_increasing [of sampleEnv 0 sampleOutput ?s 0 0] a b c d f
  show ?thesis by auto
qed

text \<open>
  C5: the \<^verbatim>\<open>lastProgress\<close> guard belongs to one call of \<^verbatim>\<open>download\<close>, not to the
  download id, and a job can have two running workers: a line on stderr marks the job
  as failed and leaves its worker running, and a retry starts a second worker under
  the same id. In the run below the job is downloading, with two workers that are
  not closed; each worker reports increasing values (50, 60 and 20, 30), and the
  progress events of the job carry 20 after 50, and 30 after 60, each with the status
  downloading.
\<close>

theorem job_progress_goes_back:
  "statusOf (run sampleEnv retriedRunning (initial 2)) 0 = Some Downloading
   \<and> map downloadId (procs (run sampleEnv retriedRunning (initial 2))) = [0, 0]
   \<and> map closed (procs (run sampleEnv retriedRunning (initial 2))) = [False, False]
   \<and> progressOf 0 (trace (run sampleEnv retriedRunning (initial 2))) = [(50, Downloading)]
   \<and> progressOf 0 (trace (run sampleEnv (retriedRunning @ twoStreams) (initial 2)))
       = [(50, Downloading), (20, Downloading), (60, Downloading), (30, Downloading)]
   \<and> map lastProgress (procs (run sampleEnv (retriedRunning @ twoStreams) (initial 2))) = [60, 30]
   \<and> statusOf (run sampleEnv (retriedRunning @ twoStreams) (initial 2)) 0 = Some Downloading"
  by code_simp

subsection \<open>Events after a terminal status\<close>

lemma listeners_absent:
  "mapGet (queue s) i = None \<Longrightarrow>
     onProgress i p st s = s \<and> onPaused i s = s \<and> onResumed i s = s \<and> onCancelled i s = s"
  by (simp add: onProgress_def onPaused_def onResumed_def onCancelled_def)






subsection \<open>The next job to run\<close>





subsection \<open>Persistence before events\<close>

text \<open>
  C8 asks that the write of a status to the history completes before the event of the
  transition is emitted, also when a job is cancelled. In the first run below a
  running job is cancelled: \<^verbatim>\<open>cancel\<close> emits the removed event at once, while the
  write of the cancelled status, started by the listener of the cancelled event,
  completes later. In the second a running job is paused: the listener of the paused
  event has emitted the statusChange to paused when \<^verbatim>\<open>pause\<close> starts the write.
\<close>

theorem events_emitted_before_write:
  "filter (\<lambda>ob. ob = Emit (Removed 0) \<or> ob = Wrote 0 Cancelled)
     (trace (run sampleEnv (oneStarted @ [CancelOp 0]) (initial 2))) = [Emit (Removed 0)]
   \<and> filter (\<lambda>ob. ob = Emit (Removed 0) \<or> ob = Wrote 0 Cancelled)
     (trace (run sampleEnv cancelRunning (initial 2))) = [Emit (Removed 0), Wrote 0 Cancelled]
   \<and> [status it. Emit (StatusChange it) \<leftarrow> trace (run sampleEnv (oneStarted @ [PauseOp 0]) (initial 2))]
       = [Downloading, Paused]
   \<and> filter (\<lambda>ob. ob = Wrote 0 Paused)
        (trace (run sampleEnv (oneStarted @ [PauseOp 0]) (initial 2))) = []"
  by code_simp

subsection \<open>Batches\<close>

lemma addBatchLoop_outcomes:
  "fst (addBatchLoop e us ty force res s) =
     res\<lparr>success := success res + length (created (outcomes e us ty force s)),
         failed := failed res + length (failures (outcomes e us ty force s)),
         skippedCount := skippedCount res + length (skips (outcomes e us ty force s)),
         resultItems := resultItems res @ created (outcomes e us ty force s),
         skippedItems := skippedItems res @ skips (outcomes e us ty force s),
         errors := errors res @ failures (outcomes e us ty force s)\<rparr>
   \<and> snd (addBatchLoop e us ty force res s) = foldl (\<lambda>t u. snd (add e u ty force t)) s us"
proof (induction us arbitrary: res s)
  case Nil
  then show ?case by simp
next
  case (Cons u us)
  obtain o1 s1 where a: "add e u ty force s = (o1, s1)" by (cases "add e u ty force s")
  show ?case
  proof (cases o1)
    case (Inl x)
    with a Cons.IH [of "res\<lparr>failed := failed res + 1, errors := errors res @ [(u, x)]\<rparr>" s1]
    show ?thesis by simp
  next
    case (Inr acc)
    with a Cons.IH [of "res\<lparr>success := success res + length (fst acc),
                 skippedCount := skippedCount res + length (snd acc),
                 resultItems := resultItems res @ fst acc,
                 skippedItems := skippedItems res @ snd acc\<rparr>" s1]
    show ?thesis by simp
  qed
qed

lemma outcomes_urls: "map fst (outcomes e us ty force s) = us"
  by (induction us arbitrary: s) simp_all

text \<open>
  C9: \<^verbatim>\<open>addBatch\<close> calls \<^verbatim>\<open>add\<close> on every URL of the list, in order, each in the
  state the earlier ones left, whether they failed or not. The errors of its result
  are the URLs whose call threw, with the error of each, and \<^verbatim>\<open>failed\<close> is their
  number; the items and the skipped items are those the calls that returned gave, in
  order, and \<^verbatim>\<open>success\<close> and \<^verbatim>\<open>skipped\<close> are their numbers.
\<close>

theorem addBatch_aggregates:
  "map fst (outcomes e us ty force s) = us
   \<and> errors (fst (addBatch e us ty force s)) = failures (outcomes e us ty force s)
   \<and> failed (fst (addBatch e us ty force s)) = length (failures (outcomes e us ty force s))
   \<and> resultItems (fst (addBatch e us ty force s)) = created (outcomes e us ty force s)
   \<and> success (fst (addBatch e us ty force s)) = length (created (outcomes e us ty force s))
   \<and> skippedItems (fst (addBatch e us ty force s)) = skips (outcomes e us ty force s)
   \<and> skippedCount (fst (addBatch e us ty force s)) = length (skips (outcomes e us ty force s))
   \<and> snd (addBatch e us ty force s) = foldl (\<lambda>t u. snd (add e u ty force t)) s us"
  using addBatchLoop_outcomes [of e us ty force _ s]
  by (simp add: addBatch_def outcomes_urls)

text \<open>A batch whose second URL cannot be resolved and whose last repeats the first.\<close>

lemma addBatch_example:
  "failed (fst (addBatch sampleEnv [''a'', ''bad'', ''b'', ''a''] ''video'' False (initial 2))) = 1
   \<and> success (fst (addBatch sampleEnv [''a'', ''bad'', ''b'', ''a''] ''video'' False (initial 2))) = 2
   \<and> skippedCount (fst (addBatch sampleEnv [''a'', ''bad'', ''b'', ''a''] ''video'' False (initial 2))) = 1
   \<and> errors (fst (addBatch sampleEnv [''a'', ''bad'', ''b'', ''a''] ''video'' False (initial 2)))
        = [(''bad'', AddFailed ''unreachable'')]
   \<and> map iid (resultItems (fst (addBatch sampleEnv [''a'', ''bad'', ''b'', ''a''] ''video'' False (initial 2))))
        = [0, 1]
   \<and> map sk_existingId (skippedItems (fst (addBatch sampleEnv [''a'', ''bad'', ''b'', ''a''] ''video'' False (initial 2))))
        = [0]"
  by code_simp

subsection \<open>Removing a job\<close>

text \<open>
  \<^verbatim>\<open>remove\<close> throws, and changes nothing, when the id is not in the registry or the
  item is downloading or paused.
\<close>

lemma remove_rejected:
  "(mapGet (queue s) i = None \<longrightarrow> remove i s = (Inl ItemNotFound, s))
   \<and> (mapGet (queue s) i = Some r
        \<and> (status (deref s r) = Downloading \<or> status (deref s r) = Paused)
      \<longrightarrow> remove i s = (Inl CancelBeforeRemove, s))"
  by (auto simp: remove_def)

text \<open>
  C10 concludes from that guard that \<^verbatim>\<open>remove\<close> never detaches a job whose worker
  is alive, and that \<^verbatim>\<open>cancel\<close> terminates the worker before it removes the job. In
  the run below the worker has printed 100%, so the progress listener has set the
  status converting. \<^verbatim>\<open>remove\<close> then succeeds and deletes the job while its worker
  runs on, and \<^verbatim>\<open>cancel\<close> deletes the job without sending a signal.
\<close>

theorem remove_detaches_converting_job:
  "statusOf (run sampleEnv convertingJob (initial 2)) 0 = Some Converting
   \<and> live (run sampleEnv convertingJob (initial 2)) 0
   \<and> fst (remove 0 (run sampleEnv convertingJob (initial 2))) = Inr True
   \<and> mapGet (queue (snd (remove 0 (run sampleEnv convertingJob (initial 2))))) 0 = None
   \<and> live (snd (remove 0 (run sampleEnv convertingJob (initial 2)))) 0
   \<and> signals (procs (snd (remove 0 (run sampleEnv convertingJob (initial 2)))) ! 0) = []
   \<and> fst (cancel 0 (run sampleEnv convertingJob (initial 2))) = Inr True
   \<and> mapGet (queue (snd (cancel 0 (run sampleEnv convertingJob (initial 2))))) 0 = None
   \<and> signals (procs (snd (cancel 0 (run sampleEnv convertingJob (initial 2)))) ! 0) = []"
  by code_simp

end
